theory Spec2Isabelle
  imports Complex_Main
begin

section \<open>The number type of the program\<close>

text \<open>
  Every signal, gain and state variable of the C++ sources is a \<^verbatim>\<open>double\<close>. The model keeps
  the four kinds of value an IEEE-754 double can hold: a finite number, the two infinities and
  not-a-number. The sources rely on them: the saturation limits default to the infinities
  (pid.h), the measurement filter uses a quiet NaN as its "no previous execution period"
  sentinel (measurement_filter.cpp), and a division by zero does not trap but yields an
  infinity or NaN.

  Arithmetic is that of IEEE-754 binary64 in the default rounding mode: the result of
  \<^verbatim>\<open>+\<close>, \<^verbatim>\<open>-\<close>, \<^verbatim>\<open>*\<close> and \<^verbatim>\<open>/\<close> on finite operands is the exact result rounded to the nearest
  double, ties to the even mantissa; it overflows to an infinity and underflows gradually to
  zero. Three points where the model is not the machine:
  \<^item> the two signed zeros are identified, so the sign of a zero result is lost and \<open>x / 0\<close> for
    \<open>x \<noteq> 0\<close> has the sign of \<open>x\<close>, as for the divisor \<^verbatim>\<open>+0.0\<close>;
  \<^item> \<^verbatim>\<open>exp\<close> of \<^verbatim>\<open><cmath>\<close> is taken to be correctly rounded, which the C++ standard does
    not promise;
  \<^item> \<open>Fin x\<close> is a term for every real \<open>x\<close>, but only the values rounding yields are doubles
    (\<open>is_double\<close> below); every result of an operation is one.
\<close>

datatype double = is_Fin: Fin real | PInf | MInf | NaN

fun dinf :: "bool \<Rightarrow> double" where
  "dinf True = PInf"
| "dinf False = MInf"

text \<open>Rounding a real number to the nearest integer, ties to the even one.\<close>

definition rne :: "real \<Rightarrow> int" where
  "rne y =
     (let f = \<lfloor>y\<rfloor>; d = y - of_int f
      in if d < 1 / 2 then f
         else if 1 / 2 < d then f + 1
         else if even f then f else f + 1)"

text \<open>
  The doubles of magnitude between \<open>2 powi e\<close> and \<open>2 powi (e + 1)\<close> are the multiples of
  \<open>2 powi (e - 52)\<close> (53 bits of mantissa); below \<open>2 powi (- 1022)\<close>, the subnormal range,
  they are the multiples of \<open>2 powi (- 1074)\<close>. \<open>quantum x\<close> is the exponent of that spacing
  around \<open>x\<close>.
\<close>

definition quantum :: "real \<Rightarrow> int" where
  "quantum x = max \<lfloor>log 2 \<bar>x\<bar>\<rfloor> (- 1022) - 52"

definition overflow_threshold :: real where
  "overflow_threshold = 2 ^ 1024"

text \<open>
  Rounding a real number to a double: to the nearest multiple of the spacing around it,
  and to an infinity if that is not below \<open>2 ^ 1024\<close>.
\<close>

definition rnd :: "real \<Rightarrow> double" where
  "rnd x =
     (if x = 0 then Fin 0
      else
        (let q = quantum x;
             v = of_int (rne (x / 2 powi q)) * 2 powi q
         in if overflow_threshold \<le> \<bar>v\<bar> then dinf (0 < x) else Fin v))"

text \<open>The values a double can hold.\<close>

definition is_double :: "double \<Rightarrow> bool" where
  "is_double d = (case d of Fin x \<Rightarrow> rnd x = Fin x | _ \<Rightarrow> True)"

fun dneg :: "double \<Rightarrow> double" where
  "dneg (Fin x) = Fin (- x)"
| "dneg PInf = MInf"
| "dneg MInf = PInf"
| "dneg NaN = NaN"

fun dadd :: "double \<Rightarrow> double \<Rightarrow> double" where
  "dadd NaN _ = NaN"
| "dadd _ NaN = NaN"
| "dadd (Fin x) (Fin y) = rnd (x + y)"
| "dadd PInf MInf = NaN"
| "dadd MInf PInf = NaN"
| "dadd PInf _ = PInf"
| "dadd MInf _ = MInf"
| "dadd (Fin x) d = d"

fun dmul :: "double \<Rightarrow> double \<Rightarrow> double" where
  "dmul NaN _ = NaN"
| "dmul _ NaN = NaN"
| "dmul (Fin x) (Fin y) = rnd (x * y)"
| "dmul (Fin x) PInf = (if x = 0 then NaN else dinf (0 < x))"
| "dmul (Fin x) MInf = (if x = 0 then NaN else dinf (x < 0))"
| "dmul PInf (Fin y) = (if y = 0 then NaN else dinf (0 < y))"
| "dmul MInf (Fin y) = (if y = 0 then NaN else dinf (y < 0))"
| "dmul PInf PInf = PInf"
| "dmul PInf MInf = MInf"
| "dmul MInf PInf = MInf"
| "dmul MInf MInf = PInf"

fun ddiv :: "double \<Rightarrow> double \<Rightarrow> double" where
  "ddiv NaN _ = NaN"
| "ddiv _ NaN = NaN"
| "ddiv (Fin x) (Fin y) =
     (if y = 0 then (if x = 0 then NaN else dinf (0 < x)) else rnd (x / y))"
| "ddiv (Fin x) _ = Fin 0"
| "ddiv PInf (Fin y) = dinf (0 \<le> y)"
| "ddiv MInf (Fin y) = dinf (y < 0)"
| "ddiv _ _ = NaN"

text \<open>\<^verbatim>\<open>exp\<close> of \<^verbatim>\<open><cmath>\<close>, correctly rounded.\<close>

fun dexp :: "double \<Rightarrow> double" where
  "dexp (Fin x) = rnd (exp x)"
| "dexp PInf = PInf"
| "dexp MInf = Fin 0"
| "dexp NaN = NaN"

text \<open>The comparisons \<^verbatim>\<open><\<close> and \<^verbatim>\<open>==\<close>: every comparison with NaN is false.\<close>

fun dlt :: "double \<Rightarrow> double \<Rightarrow> bool" where
  "dlt NaN _ = False"
| "dlt _ NaN = False"
| "dlt (Fin x) (Fin y) = (x < y)"
| "dlt _ MInf = False"
| "dlt PInf _ = False"
| "dlt _ _ = True"

fun deq :: "double \<Rightarrow> double \<Rightarrow> bool" where
  "deq NaN _ = False"
| "deq _ NaN = False"
| "deq a b = (a = b)"

text \<open>
  The usual operator symbols on \<^typ>\<open>double\<close> stand for the operations above, so that the
  expressions of the sources can be written as they are. \<open>a \<le> b\<close> is the C++ \<^verbatim>\<open>a <= b\<close>;
  the C++ \<^verbatim>\<open>a == b\<close> is \<^term>\<open>deq a b\<close> and \<^verbatim>\<open>a != b\<close> is its negation (HOL's \<open>=\<close> on
  \<^typ>\<open>double\<close> compares the stored values, so \<open>NaN = NaN\<close> holds there).
\<close>

instantiation double :: "{plus, minus, uminus, times, inverse, ord}"
begin

definition plus_double :: "double \<Rightarrow> double \<Rightarrow> double" where
  "a + b = dadd a b"

definition uminus_double :: "double \<Rightarrow> double" where
  "- a = dneg a"

definition minus_double :: "double \<Rightarrow> double \<Rightarrow> double" where
  "a - b = dadd a (dneg b)"

definition times_double :: "double \<Rightarrow> double \<Rightarrow> double" where
  "a * b = dmul a b"

definition divide_double :: "double \<Rightarrow> double \<Rightarrow> double" where
  "divide a b = ddiv a b"

definition inverse_double :: "double \<Rightarrow> double" where
  "inverse a = ddiv (Fin 1) a"

definition less_double :: "double \<Rightarrow> double \<Rightarrow> bool" where
  "a < b = dlt a b"

definition less_eq_double :: "double \<Rightarrow> double \<Rightarrow> bool" where
  "a \<le> b = (dlt a b \<or> deq a b)"

instance ..

end

text \<open>
  \<^verbatim>\<open>std::max(a, b)\<close> returns \<^verbatim>\<open>(a < b) ? b : a\<close> and \<^verbatim>\<open>std::min(a, b)\<close> returns
  \<^verbatim>\<open>(b < a) ? b : a\<close> (\<^verbatim>\<open><algorithm>\<close>).
\<close>

definition std_max :: "double \<Rightarrow> double \<Rightarrow> double" where
  "std_max a b = (if a < b then b else a)"

definition std_min :: "double \<Rightarrow> double \<Rightarrow> double" where
  "std_min a b = (if b < a then b else a)"


section \<open>The discretizer (zoh\_pid.h, zoh\_pid.cpp)\<close>

record FilterParams =
  a11 :: double
  a12 :: double
  a21 :: double
  a22 :: double
  b1 :: double
  b2 :: double

definition zoh_Fy :: "double \<Rightarrow> double \<Rightarrow> FilterParams" where
  "zoh_Fy TfTs Tx =
     (let h1 = Tx / TfTs;
          h2 = dexp (- h1);
          h3 = h1 * h2;
          h4 = h3 / TfTs
      in \<lparr>a11 = h2 + h3,
          a12 = h2,
          a21 = - h4,
          a22 = h2 - h3,
          b1 = Fin 1 - h2 - h3,
          b2 = h4\<rparr>)"


section \<open>The anti-windup rule (anti\_windup.h, anti\_windup.cpp)\<close>

datatype WindupMode = NONE | UPPER | LOWER | BOTH

definition anti_windup :: "double \<Rightarrow> WindupMode \<Rightarrow> double" where
  "anti_windup Dui windup =
     (let Dui = (if windup = BOTH \<or> windup = LOWER then std_max Dui (Fin 0) else Dui);
          Dui = (if windup = BOTH \<or> windup = UPPER then std_min Dui (Fin 0) else Dui)
      in Dui)"

text \<open>
  The same two clauses in the other order. This function is not in the sources; it is what
  "order-independent" compares \<^const>\<open>anti_windup\<close> with.
\<close>

definition anti_windup_upper_first :: "double \<Rightarrow> WindupMode \<Rightarrow> double" where
  "anti_windup_upper_first Dui windup =
     (let Dui = (if windup = BOTH \<or> windup = UPPER then std_min Dui (Fin 0) else Dui);
          Dui = (if windup = BOTH \<or> windup = LOWER then std_max Dui (Fin 0) else Dui)
      in Dui)"


section \<open>The measurement filter (measurement\_filter.h, measurement\_filter.cpp)\<close>

record FilterOutput =
  yf :: double
  dyf :: double

text \<open>
  The private members of \<^verbatim>\<open>class MeasurementFilter\<close>. A member \<^verbatim>\<open>x_\<close> of the sources is
  written \<open>x_m\<close> here and below.
\<close>

record MeasurementFilter =
  TfTs_m :: double
  a11_m :: double
  a12_m :: double
  a21_m :: double
  a22_m :: double
  b1_m :: double
  b2_m :: double
  yf_m :: double
  dyf_m :: double
  Tx_old_m :: double
  initialized_m :: bool

text \<open>The constructor.\<close>

definition MeasurementFilter_init :: "double \<Rightarrow> MeasurementFilter" where
  "MeasurementFilter_init TfTs =
     \<lparr>TfTs_m = TfTs,
      a11_m = Fin 0, a12_m = Fin 0, a21_m = Fin 0, a22_m = Fin 0,
      b1_m = Fin 0, b2_m = Fin 0,
      yf_m = Fin 0, dyf_m = Fin 0,
      Tx_old_m = NaN,
      initialized_m = False\<rparr>"

text \<open>
  The first statement of \<^verbatim>\<open>operator()\<close>: the guarded call of the discretizer. Besides the
  filter it returns the calls of \<^const>\<open>zoh_Fy\<close> it made, each as its pair of arguments
  (none or one).
\<close>

definition rediscretize ::
  "MeasurementFilter \<Rightarrow> double \<Rightarrow> MeasurementFilter \<times> (double \<times> double) list" where
  "rediscretize f Tx =
     (if \<not> initialized_m f \<or> \<not> deq Tx (Tx_old_m f) then
        (let params = zoh_Fy (TfTs_m f) Tx
         in (f\<lparr>a11_m := a11 params,
               a12_m := a12 params,
               a21_m := a21 params,
               a22_m := a22 params,
               b1_m := b1 params,
               b2_m := b2 params,
               initialized_m := True\<rparr>,
             [(TfTs_m f, Tx)]))
      else (f, []))"

text \<open>
  \<^verbatim>\<open>MeasurementFilter::operator()(y, Tx)\<close>: the output, the filter after the call and the
  calls of the discretizer made on the way.
\<close>

definition MeasurementFilter_call ::
  "MeasurementFilter \<Rightarrow> double \<Rightarrow> double
     \<Rightarrow> FilterOutput \<times> MeasurementFilter \<times> (double \<times> double) list" where
  "MeasurementFilter_call f y Tx =
     (let (f, calls) = rediscretize f Tx;
          yf_prev = yf_m f;
          f = f\<lparr>Tx_old_m := Tx\<rparr>;
          f = f\<lparr>yf_m := a11_m f * yf_prev + a12_m f * dyf_m f + b1_m f * y\<rparr>;
          f = f\<lparr>dyf_m := a21_m f * yf_prev + a22_m f * dyf_m f + b2_m f * y\<rparr>
      in (\<lparr>yf = yf_m f, dyf = dyf_m f\<rparr>, f, calls))"

definition MeasurementFilter_reset :: "MeasurementFilter \<Rightarrow> MeasurementFilter" where
  "MeasurementFilter_reset f =
     f\<lparr>yf_m := Fin 0, dyf_m := Fin 0, Tx_old_m := NaN, initialized_m := False\<rparr>"

text \<open>
  The members are private, so a filter is only ever in a state that the constructor, the
  call operator and \<^verbatim>\<open>reset\<close> lead to.
\<close>

inductive filter_reachable :: "double \<Rightarrow> MeasurementFilter \<Rightarrow> bool" where
  fr_init: "filter_reachable TfTs (MeasurementFilter_init TfTs)"
| fr_call: "filter_reachable TfTs f \<Longrightarrow>
     filter_reachable TfTs (fst (snd (MeasurementFilter_call f y Tx)))"
| fr_reset: "filter_reachable TfTs f \<Longrightarrow> filter_reachable TfTs (MeasurementFilter_reset f)"

text \<open>The six cached coefficients of a filter, as the discretizer returns them.\<close>

definition cached_params :: "MeasurementFilter \<Rightarrow> FilterParams" where
  "cached_params f =
     \<lparr>a11 = a11_m f, a12 = a12_m f, a21 = a21_m f, a22 = a22_m f,
      b1 = b1_m f, b2 = b2_m f\<rparr>"


section \<open>The controller (pid.h, pid.cpp)\<close>

record PIDController =
  kp_m :: double
  ki_m :: double
  kd_m :: double
  umin_m :: double
  umax_m :: double
  u0_m :: double
  b_m :: double
  u_old_m :: double
  up_old_m :: double
  ud_old_m :: double
  uff_old_m :: double
  filter_m :: MeasurementFilter

text \<open>The constructor.\<close>

definition PIDController_init ::
  "double \<Rightarrow> double \<Rightarrow> double \<Rightarrow> double \<Rightarrow> double \<Rightarrow> double \<Rightarrow> double \<Rightarrow> double
     \<Rightarrow> PIDController" where
  "PIDController_init kp ki kd TfTs umin umax u0 b =
     \<lparr>kp_m = kp, ki_m = ki, kd_m = kd,
      umin_m = umin, umax_m = umax,
      u0_m = u0, b_m = b,
      u_old_m = Fin 0, up_old_m = Fin 0, ud_old_m = Fin 0, uff_old_m = Fin 0,
      filter_m = MeasurementFilter_init TfTs\<rparr>"

text \<open>The two state overrides at the head of the automatic branch.\<close>

definition reset_P_PD :: "PIDController \<Rightarrow> PIDController" where
  "reset_P_PD c =
     (if deq (ki_m c) (Fin 0) then
        c\<lparr>u_old_m := u0_m c,
          up_old_m := Fin 0,
          ud_old_m := Fin 0,
          uff_old_m := Fin 0,
          b_m := Fin 1\<rparr>
      else c)"

definition tracking :: "PIDController \<Rightarrow> double \<Rightarrow> bool \<Rightarrow> PIDController" where
  "tracking c utrack track =
     (if track then
        c\<lparr>u_old_m := utrack,
          up_old_m := Fin 0,
          ud_old_m := Fin 0,
          uff_old_m := Fin 0\<rparr>
      else c)"

text \<open>The control signal increments and their sum onto the old control signal.\<close>

definition increment ::
  "PIDController \<Rightarrow> FilterOutput \<Rightarrow> double \<Rightarrow> double \<Rightarrow> double \<Rightarrow> WindupMode \<Rightarrow> double" where
  "increment c filtered r uff Tx windup =
     (let Dup = kp_m c * (b_m c * r - yf filtered) - up_old_m c;
          Dui = ki_m c * (r - yf filtered) * Tx;
          Dui = anti_windup Dui windup;
          Dud = ((- kd_m c) * dyf filtered - ud_old_m c) / Tx;
          Duff = uff - uff_old_m c;
          Du = Dup + Dui + Dud + Duff
      in u_old_m c + Du)"

text \<open>
  The branch on \<^verbatim>\<open>auto_mode\<close>: the control signal before saturation, and the controller
  with the overrides of the automatic branch applied.
\<close>

definition unsaturated ::
  "PIDController \<Rightarrow> FilterOutput \<Rightarrow> double \<Rightarrow> double \<Rightarrow> double \<Rightarrow> double \<Rightarrow> double
     \<Rightarrow> bool \<Rightarrow> bool \<Rightarrow> WindupMode \<Rightarrow> double \<times> PIDController" where
  "unsaturated c filtered r uff uman utrack Tx track auto_mode windup =
     (if auto_mode then
        (let c = reset_P_PD c;
             c = tracking c utrack track
         in (increment c filtered r uff Tx windup, c))
      else (uman, c))"

definition saturate :: "double \<Rightarrow> double \<Rightarrow> double \<Rightarrow> double" where
  "saturate u umin umax = std_max (std_min u umax) umin"

text \<open>
  The clamp of the specification (section 4.4, step 4: \<^verbatim>\<open>u <- clamp(u, umin, umax)\<close>). It is not
  in the sources; it is what the saturation line of the source is compared with.
\<close>

definition clamp :: "double \<Rightarrow> double \<Rightarrow> double \<Rightarrow> double" where
  "clamp u lo hi = (if u < lo then lo else if hi < u then hi else u)"

definition update_old ::
  "PIDController \<Rightarrow> FilterOutput \<Rightarrow> double \<Rightarrow> double \<Rightarrow> double \<Rightarrow> PIDController" where
  "update_old c filtered u r uff =
     c\<lparr>u_old_m := u,
       up_old_m := kp_m c * (b_m c * r - yf filtered),
       ud_old_m := (- kd_m c) * dyf filtered,
       uff_old_m := uff\<rparr>"

text \<open>
  \<^verbatim>\<open>PIDController::operator()(r, y, uff, uman, utrack, Tx, track, auto_mode, windup)\<close>: the
  returned control signal and the controller after the call.
\<close>

definition PIDController_call ::
  "PIDController \<Rightarrow> double \<Rightarrow> double \<Rightarrow> double \<Rightarrow> double \<Rightarrow> double \<Rightarrow> double
     \<Rightarrow> bool \<Rightarrow> bool \<Rightarrow> WindupMode \<Rightarrow> double \<times> PIDController" where
  "PIDController_call c r y uff uman utrack Tx track auto_mode windup =
     (let (filtered, flt, calls) = MeasurementFilter_call (filter_m c) y Tx;
          c = c\<lparr>filter_m := flt\<rparr>;
          (u, c) = unsaturated c filtered r uff uman utrack Tx track auto_mode windup;
          u = saturate u (umin_m c) (umax_m c);
          c = update_old c filtered u r uff
      in (u, c))"

definition PIDController_reset :: "PIDController \<Rightarrow> PIDController" where
  "PIDController_reset c =
     c\<lparr>u_old_m := Fin 0,
       up_old_m := Fin 0,
       ud_old_m := Fin 0,
       uff_old_m := Fin 0,
       filter_m := MeasurementFilter_reset (filter_m c)\<rparr>"


section \<open>Sequences of calls\<close>

text \<open>
  The arguments of one call of the controller, and a caller that feeds a controller one row
  after the other and collects the outputs, as the loop of \<^verbatim>\<open>test_pid_with_io_data\<close>
  (test\_cpp\_pid.cpp) does.
\<close>

record call_args =
  arg_r :: double
  arg_y :: double
  arg_uff :: double
  arg_uman :: double
  arg_utrack :: double
  arg_Tx :: double
  arg_track :: bool
  arg_auto_mode :: bool
  arg_windup :: WindupMode

definition call_with :: "PIDController \<Rightarrow> call_args \<Rightarrow> double \<times> PIDController" where
  "call_with c a =
     PIDController_call c (arg_r a) (arg_y a) (arg_uff a) (arg_uman a) (arg_utrack a)
       (arg_Tx a) (arg_track a) (arg_auto_mode a) (arg_windup a)"

fun run :: "PIDController \<Rightarrow> call_args list \<Rightarrow> double list \<times> PIDController" where
  "run c [] = ([], c)"
| "run c (a # rows) =
     (let (u, c) = call_with c a;
          (us, c) = run c rows
      in (u # us, c))"


section \<open>Relations between controllers\<close>

text \<open>
  Two filters that agree on everything a call reads: the ratio, the state, \<open>Tx_old\<close>, the
  initialized flag and, if initialized, the coefficients.
\<close>

definition filter_sim :: "MeasurementFilter \<Rightarrow> MeasurementFilter \<Rightarrow> bool" where
  "filter_sim f g \<longleftrightarrow>
     TfTs_m f = TfTs_m g \<and> yf_m f = yf_m g \<and> dyf_m f = dyf_m g \<and>
     Tx_old_m f = Tx_old_m g \<and> initialized_m f = initialized_m g \<and>
     (initialized_m f \<longrightarrow> cached_params f = cached_params g)"

text \<open>
  Two controllers that agree on everything a call reads before it overwrites it: if \<open>ki == 0\<close>
  the setpoint weight and the old proportional term may differ.
\<close>

definition controller_sim :: "PIDController \<Rightarrow> PIDController \<Rightarrow> bool" where
  "controller_sim c d \<longleftrightarrow>
     kp_m c = kp_m d \<and> ki_m c = ki_m d \<and> kd_m c = kd_m d \<and>
     umin_m c = umin_m d \<and> umax_m c = umax_m d \<and> u0_m c = u0_m d \<and>
     u_old_m c = u_old_m d \<and> ud_old_m c = ud_old_m d \<and> uff_old_m c = uff_old_m d \<and>
     (deq (ki_m c) (Fin 0) \<or> b_m c = b_m d \<and> up_old_m c = up_old_m d) \<and>
     filter_sim (filter_m c) (filter_m d)"

text \<open>
  Two controllers with the same configuration, up to the setpoint weight if \<open>ki == 0\<close>.
\<close>

definition same_config :: "PIDController \<Rightarrow> PIDController \<Rightarrow> bool" where
  "same_config c d \<longleftrightarrow>
     kp_m c = kp_m d \<and> ki_m c = ki_m d \<and> kd_m c = kd_m d \<and>
     umin_m c = umin_m d \<and> umax_m c = umax_m d \<and> u0_m c = u0_m d \<and>
     TfTs_m (filter_m c) = TfTs_m (filter_m d) \<and>
     (deq (ki_m c) (Fin 0) \<or> b_m c = b_m d)"


section \<open>Rounding\<close>

text \<open>
  Rounding is exact on the doubles (\<open>rnd_exact\<close>), yields only doubles (\<open>rnd_form\<close>,
  \<open>rnd_idem\<close>), overflows to infinity from \<open>2 ^ 1024\<close> on (\<open>rnd_overflow\<close>) and errs by at most
  \<open>1e-15\<close> on numbers of magnitude up to 3 (\<open>rnd_near\<close>).
\<close>

lemma rne_of_int [simp]: "rne (of_int n) = n"
  by (simp add: rne_def)

lemma rne_err: "\<bar>of_int (rne y) - y\<bar> \<le> 1 / 2"
  unfolding rne_def Let_def by (auto simp: abs_le_iff)

lemma rne_floor: "rne y = \<lfloor>y\<rfloor> \<or> rne y = \<lfloor>y\<rfloor> + 1"
  by (simp add: rne_def Let_def)

lemma rne_upper: "y \<le> of_int N \<Longrightarrow> rne y \<le> N"
proof -
  assume a: "y \<le> of_int N"
  then have f: "\<lfloor>y\<rfloor> \<le> N" by (simp add: floor_le_iff)
  show ?thesis
  proof (cases "\<lfloor>y\<rfloor> = N")
    case True
    then have "y = of_int N" using a by linarith
    then show ?thesis by simp
  next
    case False
    then show ?thesis using f rne_floor [of y] by linarith
  qed
qed

lemma rne_lower: "of_int N \<le> y \<Longrightarrow> N \<le> rne y"
proof -
  assume "of_int N \<le> y"
  then have "N \<le> \<lfloor>y\<rfloor>" by (simp add: le_floor_iff)
  then show ?thesis using rne_floor [of y] by linarith
qed

lemma floor_log2_bounds:
  assumes "x \<noteq> 0"
  shows "2 powi \<lfloor>log 2 \<bar>x\<bar>\<rfloor> \<le> \<bar>x\<bar>" and "\<bar>x\<bar> < 2 powi (\<lfloor>log 2 \<bar>x\<bar>\<rfloor> + 1)"
proof -
  have p: "0 < \<bar>x\<bar>" using assms by simp
  have "2 powr real_of_int \<lfloor>log 2 \<bar>x\<bar>\<rfloor> \<le> \<bar>x\<bar> \<and> \<bar>x\<bar> < 2 powr real_of_int (\<lfloor>log 2 \<bar>x\<bar>\<rfloor> + 1)"
    using floor_log_eq_powr_iff [OF p, of 2 "\<lfloor>log 2 \<bar>x\<bar>\<rfloor>"] by (simp del: of_int_add)
  then show "2 powi \<lfloor>log 2 \<bar>x\<bar>\<rfloor> \<le> \<bar>x\<bar>" and "\<bar>x\<bar> < 2 powi (\<lfloor>log 2 \<bar>x\<bar>\<rfloor> + 1)"
    by (simp_all add: powr_real_of_int' del: of_int_add)
qed

lemma powi_less_imp_less:
  assumes "(2::real) powi a < 2 powi b"
  shows "a < b"
proof (rule ccontr)
  assume "\<not> a < b"
  then have "b \<le> a" by simp
  then have "(2::real) powi b \<le> 2 powi a"
    by (intro power_int_increasing) simp_all
  with assms show False by linarith
qed

lemma quantum_ge: "- 1074 \<le> quantum x"
  by (simp add: quantum_def)

lemma quantum_le:
  assumes "x \<noteq> 0" "\<bar>x\<bar> < 2 powi (k + 53)" "- 1074 \<le> k"
  shows "quantum x \<le> k"
proof -
  have "2 powi \<lfloor>log 2 \<bar>x\<bar>\<rfloor> < (2::real) powi (k + 53)"
    using floor_log2_bounds(1) [OF assms(1)] assms(2) by linarith
  then have "\<lfloor>log 2 \<bar>x\<bar>\<rfloor> < k + 53"
    by (rule powi_less_imp_less)
  then show ?thesis using assms(3) by (simp add: quantum_def)
qed

lemma quantum_eq:
  assumes "2 powi e \<le> \<bar>x\<bar>" "\<bar>x\<bar> < 2 powi (e + 1)" "- 1022 \<le> e"
  shows "quantum x = e - 52"
proof -
  have p: "0 < \<bar>x\<bar>"
    using assms(1) zero_less_power_int [of "2::real" e] by linarith
  have "2 powr real_of_int e \<le> \<bar>x\<bar> \<and> \<bar>x\<bar> < 2 powr real_of_int (e + 1)"
    using assms(1,2) by (simp add: powr_real_of_int' del: of_int_add)
  then have "\<lfloor>log 2 \<bar>x\<bar>\<rfloor> = e"
    using floor_log_eq_powr_iff [OF p, of 2 e] by simp
  then show ?thesis using assms(3) by (simp add: quantum_def)
qed

lemma scaled_less:
  assumes "x \<noteq> 0"
  shows "\<bar>x\<bar> < 2 powi (quantum x + 53)"
proof -
  have "\<lfloor>log 2 \<bar>x\<bar>\<rfloor> + 1 \<le> quantum x + 53" by (simp add: quantum_def)
  then have "(2::real) powi (\<lfloor>log 2 \<bar>x\<bar>\<rfloor> + 1) \<le> 2 powi (quantum x + 53)"
    by (intro power_int_increasing) simp_all
  then show ?thesis using floor_log2_bounds(2) [OF assms] by linarith
qed

lemma small_less_overflow_threshold: "\<bar>x\<bar> \<le> 4 \<Longrightarrow> \<bar>x\<bar> < overflow_threshold"
proof -
  assume a: "\<bar>x\<bar> \<le> 4"
  have "(2::real) ^ 3 \<le> 2 ^ 1024" by (rule power_increasing) simp_all
  then have "(8::real) \<le> overflow_threshold" unfolding overflow_threshold_def by (simp only: power3_eq_cube)
  with a show ?thesis by linarith
qed

lemma rnd_zero [simp]: "rnd 0 = Fin 0"
  by (simp add: rnd_def)

lemma rnd_exact_less:
  assumes x: "x = of_int m * 2 powi k"
    and m: "\<bar>m\<bar> < 2 ^ 53"
    and k: "- 1074 \<le> k"
    and b: "\<bar>x\<bar> < overflow_threshold"
  shows "rnd x = Fin x"
proof (cases "x = 0")
  case True
  then show ?thesis by simp
next
  case False
  define q where "q = quantum x"
  have "\<bar>x\<bar> = \<bar>of_int m\<bar> * 2 powi k"
    unfolding x by (simp add: abs_mult)
  also have "\<dots> < 2 ^ 53 * 2 powi k"
  proof (rule mult_strict_right_mono)
    have "(of_int \<bar>m\<bar> :: real) < of_int (2 ^ 53)" using m by (simp only: of_int_less_iff)
    then show "\<bar>real_of_int m\<bar> < 2 ^ 53" by simp
    show "(0::real) < 2 powi k" by (simp add: zero_less_power_int)
  qed
  also have "\<dots> = 2 powi (k + 53)"
    by (simp add: power_int_add)
  finally have "q \<le> k"
    unfolding q_def using quantum_le [OF False _ k] by simp
  then obtain j :: nat where j: "k = q + int j"
    by (metis zle_iff_zadd)
  have "(2::real) powi k = 2 ^ j * 2 powi q"
    unfolding j by (simp add: power_int_add)
  then have xq: "x = of_int (m * 2 ^ j) * 2 powi q"
    unfolding x by simp
  have p: "(2::real) powi q \<noteq> 0" by simp
  have "x / 2 powi q = of_int (m * 2 ^ j)"
    unfolding xq using p by (rule nonzero_mult_div_cancel_right)
  then have "rne (x / 2 powi q) = m * 2 ^ j"
    by (simp only: rne_of_int)
  then have "of_int (rne (x / 2 powi q)) * 2 powi q = x"
    using xq by simp
  then show ?thesis
    using False b unfolding rnd_def Let_def q_def by simp
qed


lemma rnd_exact:
  assumes x: "x = of_int m * 2 powi k"
    and m: "\<bar>m\<bar> \<le> 2 ^ 53"
    and k: "- 1074 \<le> k"
    and b: "\<bar>x\<bar> < overflow_threshold"
  shows "rnd x = Fin x"
proof (cases "\<bar>m\<bar> < 2 ^ 53")
  case True
  then show ?thesis using rnd_exact_less [OF x _ k b] by simp
next
  case False
  then have e: "\<bar>m\<bar> = 2 ^ 53" using m by simp
  then have h: "m = 2 * (m div 2)" by (simp add: abs_if split: if_splits; presburger)
  have "x = of_int (2 * (m div 2)) * 2 powi k"
    using x h by simp
  also have "\<dots> = of_int (m div 2) * (2 powi k * 2)"
    by simp
  also have "2 powi k * 2 = (2::real) powi (k + 1)"
    by (simp add: power_int_add)
  finally have x': "x = of_int (m div 2) * 2 powi (k + 1)" .
  have "\<bar>m div 2\<bar> < 2 ^ 53" using e by (simp add: abs_if split: if_splits; presburger)
  then show ?thesis using rnd_exact_less [OF x' _ _ b] k by simp
qed

lemma rnd_form:
  assumes "rnd x = Fin v"
  shows "\<exists>m k. v = of_int m * 2 powi k \<and> \<bar>m\<bar> \<le> 2 ^ 53 \<and> - 1074 \<le> k \<and> \<bar>v\<bar> < overflow_threshold"
proof (cases "x = 0")
  case True
  then have "v = of_int 0 * 2 powi 0" using assms by simp
  moreover have "\<bar>v\<bar> < overflow_threshold"
    using True assms by (intro small_less_overflow_threshold) simp
  ultimately show ?thesis by (intro exI [of _ 0] exI [of _ "0::int"]) simp
next
  case False
  define q where "q = quantum x"
  define n where "n = rne (x / 2 powi q)"
  have v: "v = of_int n * 2 powi q" and b: "\<bar>v\<bar> < overflow_threshold"
    using assms False
    by (cases "overflow_threshold \<le> \<bar>of_int n * 2 powi q\<bar>"; cases "0 < x";
        simp add: rnd_def Let_def q_def n_def)+
  have p: "(0::real) < 2 powi q" by (simp add: zero_less_power_int)
  have "\<bar>x\<bar> < 2 powi (q + 53)" unfolding q_def by (rule scaled_less [OF False])
  also have "\<dots> = 2 ^ 53 * 2 powi q" by (simp add: power_int_add)
  finally have "\<bar>x\<bar> / 2 powi q < 2 ^ 53" using p by (simp add: pos_divide_less_eq)
  then have a: "\<bar>x / 2 powi q\<bar> \<le> of_int (2 ^ 53)"
    unfolding abs_divide abs_of_pos [OF p] by simp
  have "x / 2 powi q \<le> of_int (2 ^ 53)" using a by (simp only: abs_le_iff)
  then have u: "n \<le> 2 ^ 53" unfolding n_def by (rule rne_upper)
  have "of_int (- (2 ^ 53)) \<le> x / 2 powi q" using a by (simp only: of_int_minus abs_le_iff) linarith
  then have "- (2 ^ 53) \<le> n" unfolding n_def by (rule rne_lower)
  with u have "n \<le> 2 ^ 53" "- (2 ^ 53) \<le> n" by simp_all
  then have "\<bar>n\<bar> \<le> 2 ^ 53" by simp
  with v b quantum_ge [of x] show ?thesis unfolding q_def by blast
qed

lemma rnd_idem: "rnd x = Fin v \<Longrightarrow> rnd v = Fin v"
  using rnd_form rnd_exact by blast


lemma overflow_threshold_powi: "overflow_threshold = 2 powi 1024"
  unfolding overflow_threshold_def by (metis power_int_of_nat of_nat_numeral)

lemma rnd_overflow:
  assumes "overflow_threshold \<le> x"
  shows "rnd x = PInf"
proof -
  define N :: int where "N = 1024"
  have t: "overflow_threshold = 2 powi N"
    unfolding N_def by (rule overflow_threshold_powi)
  have tp: "0 < overflow_threshold"
    unfolding t by (simp add: zero_less_power_int)
  then have x: "0 < x" "x \<noteq> 0" "\<bar>x\<bar> = x" using assms by simp_all
  define e where "e = \<lfloor>log 2 \<bar>x\<bar>\<rfloor>"
  have lo: "2 powi e \<le> x" and hi: "x < 2 powi (e + 1)"
    using floor_log2_bounds [OF x(2)] unfolding e_def x(3) by simp_all
  have "(2::real) powi N < 2 powi (e + 1)"
    using assms hi unfolding t by linarith
  then have "N < e + 1" by (rule powi_less_imp_less)
  then have e: "N \<le> e" by simp
  define q where "q = quantum x"
  have q: "q = e - 52"
    using e unfolding q_def quantum_def e_def N_def by simp
  have p: "(0::real) < 2 powi q" by (simp add: zero_less_power_int)
  have "(2::real) powi e = 2 ^ 52 * 2 powi q"
    unfolding q by (simp add: power_int_diff)
  then have "real_of_int (2 ^ 52) * 2 powi q \<le> x" using lo by simp
  then have "real_of_int (2 ^ 52) \<le> x / 2 powi q"
    using p by (simp add: pos_le_divide_eq)
  then have "2 ^ 52 \<le> rne (x / 2 powi q)" by (rule rne_lower)
  then have "real_of_int (2 ^ 52) \<le> of_int (rne (x / 2 powi q))"
    by (simp only: of_int_le_iff)
  then have "real_of_int (2 ^ 52) * 2 powi q \<le> of_int (rne (x / 2 powi q)) * 2 powi q"
    using p by (intro mult_right_mono) simp_all
  moreover have "real_of_int (2 ^ 52) * 2 powi q = (2::real) powi e"
    unfolding q by (simp add: power_int_diff)
  moreover have "(2::real) powi N \<le> 2 powi e"
    using e by (intro power_int_increasing) simp_all
  ultimately have "overflow_threshold \<le> of_int (rne (x / 2 powi q)) * 2 powi q"
    unfolding t by linarith
  then have "overflow_threshold \<le> \<bar>of_int (rne (x / 2 powi q)) * 2 powi q\<bar>"
    by linarith
  then show ?thesis
    using x unfolding rnd_def Let_def q_def by simp
qed

lemma rnd_near:
  assumes "\<bar>x\<bar> \<le> 3"
  shows "\<exists>v. rnd x = Fin v \<and> \<bar>v - x\<bar> \<le> 1 / 1000000000000000"
proof (cases "x = 0")
  case True
  then show ?thesis by simp
next
  case False
  define q where "q = quantum x"
  define v :: real where "v = of_int (rne (x / 2 powi q)) * 2 powi q"
  have p: "(0::real) < 2 powi q" by (simp add: zero_less_power_int)
  have "\<bar>x\<bar> < 2 powi 2" using assms by simp
  then have "2 powi \<lfloor>log 2 \<bar>x\<bar>\<rfloor> < (2::real) powi 2"
    using floor_log2_bounds(1) [OF False] by linarith
  then have "\<lfloor>log 2 \<bar>x\<bar>\<rfloor> < 2"
    by (rule powi_less_imp_less)
  then have q: "q \<le> - 51" by (simp add: q_def quantum_def)
  then have "(2::real) powi q \<le> 2 powi (- 51)"
    by (intro power_int_increasing) simp_all
  then have q2: "(2::real) powi q \<le> 2 / 1000000000000000"
    by (simp add: power_int_minus)
  have "v - x = (of_int (rne (x / 2 powi q)) - x / 2 powi q) * 2 powi q"
    using p by (simp add: v_def algebra_simps)
  then have "\<bar>v - x\<bar> = \<bar>of_int (rne (x / 2 powi q)) - x / 2 powi q\<bar> * 2 powi q"
    using p by (simp add: abs_mult)
  also have "\<dots> \<le> 1 / 2 * 2 powi q"
    using p rne_err [of "x / 2 powi q"] by (intro mult_right_mono) simp_all
  finally have e: "\<bar>v - x\<bar> \<le> 1 / 1000000000000000" using q2 by simp
  have "(1::real) / 1000000000000000 \<le> 1" by simp
  with e have "\<bar>v - x\<bar> \<le> 1" by linarith
  then have "\<bar>v\<bar> \<le> 4" using assms by linarith
  then have "\<bar>v\<bar> < overflow_threshold"
    by (rule small_less_overflow_threshold)
  then have "rnd x = Fin v"
    using False by (simp add: rnd_def Let_def v_def q_def)
  with e show ?thesis by blast
qed

lemma below_overflow_threshold:
  "\<bar>x\<bar> \<le> 2 ^ 54 \<Longrightarrow> \<bar>x\<bar> < overflow_threshold"
proof -
  assume a: "\<bar>x\<bar> \<le> 2 ^ 54"
  have "(2::real) ^ 55 \<le> 2 ^ 1024" by (rule power_increasing) simp_all
  moreover have "(2::real) ^ 54 < 2 ^ 55" by (rule power_strict_increasing) simp_all
  ultimately show ?thesis using a unfolding overflow_threshold_def by linarith
qed

lemma rnd_values [simp]:
  "rnd 1 = Fin 1"
  "rnd (1 / 2) = Fin (1 / 2)"
  "rnd (3 / 2) = Fin (3 / 2)"
  "rnd (2 ^ 53) = Fin (2 ^ 53)"
  "rnd (2 ^ 53 + 2) = Fin (2 ^ 53 + 2)"
  "rnd (43 / 2) = Fin (43 / 2)"
proof -
  show "rnd 1 = Fin 1"
  proof (rule rnd_exact [of _ 1 0])
    show "\<bar>1::real\<bar> < overflow_threshold" by (rule small_less_overflow_threshold) simp
  qed simp_all
  show "rnd (1 / 2) = Fin (1 / 2)"
  proof (rule rnd_exact [of _ 1 "- 1"])
    show "\<bar>1 / 2 :: real\<bar> < overflow_threshold" by (rule small_less_overflow_threshold) simp
  qed simp_all
  show "rnd (3 / 2) = Fin (3 / 2)"
  proof (rule rnd_exact [of _ 3 "- 1"])
    show "\<bar>3 / 2 :: real\<bar> < overflow_threshold" by (rule small_less_overflow_threshold) simp
  qed simp_all
  show "rnd (2 ^ 53) = Fin (2 ^ 53)"
  proof (rule rnd_exact [of _ "2 ^ 53" 0])
    show "\<bar>2 ^ 53 :: real\<bar> < overflow_threshold" by (rule below_overflow_threshold) simp
  qed simp_all
  show "rnd (43 / 2) = Fin (43 / 2)"
  proof (rule rnd_exact [of _ 43 "- 1"])
    have "(2::real) ^ 5 \<le> 2 ^ 1024" by (rule power_increasing) simp_all
    then show "\<bar>43 / 2 :: real\<bar> < overflow_threshold"
      unfolding overflow_threshold_def by simp
  qed simp_all
  show "rnd (2 ^ 53 + 2) = Fin (2 ^ 53 + 2)"
  proof (rule rnd_exact [of _ "2 ^ 52 + 1" 1])
    show "\<bar>2 ^ 53 + 2 :: real\<bar> < overflow_threshold" by (rule below_overflow_threshold) simp
  qed simp_all
qed

lemma rnd_at_two53:
  assumes "0 \<le> d" "d < 2"
  shows "rnd (2 ^ 53 + d) = Fin (of_int (rne ((2 ^ 53 + d) / 2)) * 2)"
proof -
  have b: "(2::real) ^ 53 + d < 2 ^ 54" using assms by simp
  have q: "quantum (2 ^ 53 + d) = 1"
    using quantum_eq [of 53 "2 ^ 53 + d"] assms b by simp
  have "(2 ^ 53 + d) / 2 \<le> of_int (2 ^ 53)" using assms by simp
  then have u: "rne ((2 ^ 53 + d) / 2) \<le> 2 ^ 53" by (rule rne_upper)
  have "of_int 0 \<le> (2 ^ 53 + d) / 2" using assms by simp
  then have l: "0 \<le> rne ((2 ^ 53 + d) / 2)" by (rule rne_lower)
  have "\<bar>real_of_int (rne ((2 ^ 53 + d) / 2)) * 2\<bar> \<le> 2 ^ 54"
    using u l by simp
  then have "\<bar>real_of_int (rne ((2 ^ 53 + d) / 2)) * 2\<bar> < overflow_threshold"
    by (rule below_overflow_threshold)
  moreover have "(2::real) ^ 53 + d \<noteq> 0" using assms by simp
  ultimately show ?thesis
    unfolding rnd_def Let_def q by simp
qed

lemma rnd_two53_half [simp]: "rnd (2 ^ 53 + 1 / 2) = Fin (2 ^ 53)"
  using rnd_at_two53 [of "1 / 2"] by (simp add: rne_def Let_def)

lemma rnd_two53_three_halves [simp]: "rnd (2 ^ 53 + 3 / 2) = Fin (2 ^ 53 + 2)"
  using rnd_at_two53 [of "3 / 2"] by (simp add: rne_def Let_def)


section \<open>Arithmetic of the number type\<close>

lemma Fin_arith [simp]:
  "Fin x + Fin y = rnd (x + y)"
  "Fin x - Fin y = rnd (x - y)"
  "Fin x * Fin y = rnd (x * y)"
  "- Fin x = Fin (- x)"
  "y \<noteq> 0 \<Longrightarrow> Fin x / Fin y = rnd (x / y)"
  by (simp_all add: plus_double_def minus_double_def times_double_def uminus_double_def
        divide_double_def)

lemma Fin_compare [simp]:
  "Fin x < Fin y \<longleftrightarrow> x < y"
  "Fin x \<le> Fin y \<longleftrightarrow> x \<le> y"
  "deq (Fin x) (Fin y) \<longleftrightarrow> x = y"
  by (auto simp add: less_double_def less_eq_double_def)

lemma NaN_right [simp]:
  "dlt a NaN = False" "deq a NaN = False" "dadd a NaN = NaN" "dmul a NaN = NaN"
  "ddiv a NaN = NaN"
  by (cases a; simp)+

lemma std_max_Fin [simp]: "std_max (Fin x) (Fin y) = Fin (max x y)"
  by (simp add: std_max_def max_def)

lemma std_min_Fin [simp]: "std_min (Fin x) (Fin y) = Fin (min x y)"
  by (simp add: std_min_def min_def)

lemma deq_imp_eq: "deq a b \<Longrightarrow> a = b"
  by (cases a; cases b) simp_all

lemma le_not_NaN: "(a::double) \<le> b \<Longrightarrow> a \<noteq> NaN \<and> b \<noteq> NaN"
  by (cases a; cases b) (simp_all add: less_eq_double_def)

lemma saturate_in_range:
  assumes "umin \<le> umax" and "u \<noteq> NaN"
  shows "umin \<le> saturate u umin umax \<and> saturate u umin umax \<le> umax"
  using assms
  by (cases u; cases umin; cases umax)
     (auto simp add: saturate_def std_max_def std_min_def less_double_def less_eq_double_def)

lemma saturate_NaN [simp]: "saturate NaN umin umax = NaN"
  by (simp add: saturate_def std_max_def std_min_def less_double_def)

lemma is_double_simps [simp]:
  "is_double (rnd x)" "is_double (Fin 0)" "is_double PInf" "is_double MInf" "is_double NaN"
  "is_double (dinf s)"
proof -
  show "is_double (rnd x)"
    by (cases "rnd x") (simp_all add: is_double_def rnd_idem)
  show "is_double (dinf s)" by (cases s) (simp_all add: is_double_def)
qed (simp_all add: is_double_def)

lemma is_double_arith [simp]:
  "is_double (a + b)" "is_double (a * b)" "is_double (a / b)" "is_double (dexp a)"
proof -
  show "is_double (a + b)"
    by (cases a; cases b) (simp_all add: plus_double_def)
  show "is_double (a * b)"
    by (cases a; cases b) (simp_all add: times_double_def)
  show "is_double (a / b)"
    by (cases a; cases b) (simp_all add: divide_double_def)
  show "is_double (dexp a)"
    by (cases a) simp_all
qed

lemma double_sub_zero [simp]: "is_double a \<Longrightarrow> a - Fin 0 = a"
  by (cases a) (simp_all add: minus_double_def is_double_def)

lemma saturate_clamp: "umin \<le> umax \<Longrightarrow> saturate u umin umax = clamp u umin umax"
  by (cases u; cases umin; cases umax)
     (auto simp add: saturate_def clamp_def std_max_def std_min_def less_double_def
        less_eq_double_def)

lemma saturate_unbounded [simp]: "saturate u MInf PInf = u"
  by (cases u) (simp_all add: saturate_def std_max_def std_min_def less_double_def)

section \<open>Facts about the discretizer\<close>


lemma exp_small:
  fixes t :: real
  assumes "\<bar>t\<bar> \<le> 1 / 1000000000000000"
  shows "1 - 1 / 1000000000000000 \<le> exp t" and "exp t \<le> 1 + 2 / 1000000000000000"
proof -
  have "1 + t \<le> exp t" by (rule exp_ge_add_one_self)
  then show "1 - 1 / 1000000000000000 \<le> exp t" using assms by linarith
  show "exp t \<le> 1 + 2 / 1000000000000000"
  proof (cases "t \<le> 0")
    case True
    then have "exp t \<le> 1" by simp
    then show ?thesis by linarith
  next
    case False
    then have t: "0 \<le> t" "t \<le> 1" using assms by simp_all
    then have "exp t \<le> 1 + t + t\<^sup>2" by (rule exp_bound)
    moreover have "t\<^sup>2 \<le> t" using t by (simp add: power2_eq_square mult_left_le)
    ultimately show ?thesis using assms by linarith
  qed
qed


lemma abs_mult_le:
  fixes a b :: real
  assumes "\<bar>a\<bar> \<le> A" "\<bar>b\<bar> \<le> B"
  shows "\<bar>a * b\<bar> \<le> A * B"
  unfolding abs_mult using assms by (intro mult_mono) simp_all

text \<open>
  The accuracy of the discretizer where nothing overflows: for \<open>TfTs \<ge> 1\<close> and
  \<open>0 < Tx \<le> TfTs\<close> every intermediate value has magnitude below 3, each operation errs by
  at most \<open>1e-15\<close>, and the errors add up to less than \<open>2e-14\<close>.
\<close>

lemma zoh_Fy_accuracy:
  fixes T X :: real
  assumes T: "1 \<le> T" and X: "0 < X" "X \<le> T"
  defines "H1 \<equiv> X / T"
  defines "H2 \<equiv> exp (- H1)"
  defines "H3 \<equiv> H1 * H2"
  defines "H4 \<equiv> H3 / T"
  shows "\<exists>A11 A12 A21 A22 B1 B2.
      zoh_Fy (Fin T) (Fin X) =
        \<lparr>a11 = Fin A11, a12 = Fin A12, a21 = Fin A21,
         a22 = Fin A22, b1 = Fin B1, b2 = Fin B2\<rparr> \<and>
      \<bar>A11 - (H2 + H3)\<bar> \<le> 2 / 100000000000000 \<and>
      \<bar>A12 - H2\<bar> \<le> 2 / 100000000000000 \<and>
      \<bar>A21 - (- H4)\<bar> \<le> 2 / 100000000000000 \<and>
      \<bar>A22 - (H2 - H3)\<bar> \<le> 2 / 100000000000000 \<and>
      \<bar>B1 - (1 - H2 - H3)\<bar> \<le> 2 / 100000000000000 \<and>
      \<bar>B2 - H4\<bar> \<le> 2 / 100000000000000"
proof -
  have T0: "0 < T" "T \<noteq> 0" using T by simp_all
  have H1: "0 < H1" "H1 \<le> 1"
    using T0 X by (simp_all add: H1_def)
  have H2: "0 < H2" "H2 \<le> 1"
    using H1 by (simp_all add: H2_def)
  have H3: "0 \<le> H3" "H3 \<le> 1"
    using H1 H2 by (simp_all add: H3_def mult_le_one)
  have H4: "0 \<le> H4" "H4 \<le> 1"
  proof -
    show "0 \<le> H4" using H3 T0 by (simp add: H4_def)
    have "H3 / T \<le> H3 / 1" using H3 T by (intro divide_left_mono) simp_all
    then show "H4 \<le> 1" using H3 by (simp add: H4_def)
  qed
  have sum: "H2 + H3 \<le> 1"
  proof -
    have "1 + H1 \<le> exp H1" by (rule exp_ge_add_one_self)
    then have "(1 + H1) * exp (- H1) \<le> exp H1 * exp (- H1)"
      by (intro mult_right_mono) simp_all
    then show ?thesis
      by (simp add: H3_def H2_def exp_minus algebra_simps)
  qed
  \<comment> \<open>\<open>h1 = Tx / TfTs\<close>\<close>
  have "\<bar>H1\<bar> \<le> 3" using H1 by linarith
  then obtain v1 where v1: "rnd H1 = Fin v1" "\<bar>v1 - H1\<bar> \<le> 1 / 1000000000000000"
    using rnd_near by blast
  \<comment> \<open>\<open>h2 = exp (- h1)\<close>\<close>
  define g where "g = exp (H1 - v1)"
  have X2: "exp (- v1) = H2 * g"
    by (simp add: g_def H2_def exp_add [symmetric])
  have g: "1 - 1 / 1000000000000000 \<le> g" "g \<le> 1 + 2 / 1000000000000000"
    unfolding g_def using exp_small [of "H1 - v1"] v1(2) by (simp_all add: abs_minus_commute)
  have "exp (- v1) - H2 = H2 * (g - 1)"
    by (simp add: X2 algebra_simps)
  moreover have "\<bar>H2 * (g - 1)\<bar> \<le> 1 * (2 / 1000000000000000)"
    by (rule abs_mult_le) (use H2 g in linarith)+
  ultimately have x2: "\<bar>exp (- v1) - H2\<bar> \<le> 2 / 1000000000000000"
    by simp
  have "\<bar>exp (- v1)\<bar> \<le> 3" using x2 H2 by linarith
  then obtain v2 where v2: "rnd (exp (- v1)) = Fin v2"
      "\<bar>v2 - exp (- v1)\<bar> \<le> 1 / 1000000000000000"
    using rnd_near by blast
  have e2: "\<bar>v2 - H2\<bar> \<le> 3 / 1000000000000000"
    using v2(2) x2 by linarith
  \<comment> \<open>\<open>h3 = h1 * h2\<close>\<close>
  have "v1 * v2 - H3 = v1 * (v2 - H2) + H2 * (v1 - H1)"
    by (simp add: H3_def algebra_simps)
  moreover have "\<bar>v1 * (v2 - H2)\<bar> \<le> 2 * (3 / 1000000000000000)"
    by (rule abs_mult_le) (use v1(2) H1 e2 in linarith)+
  moreover have "\<bar>H2 * (v1 - H1)\<bar> \<le> 1 * (1 / 1000000000000000)"
    by (rule abs_mult_le) (use v1(2) H2 in linarith)+
  ultimately have x3: "\<bar>v1 * v2 - H3\<bar> \<le> 7 / 1000000000000000"
    by linarith
  have "\<bar>v1 * v2\<bar> \<le> 3" using x3 H3 by linarith
  then obtain v3 where v3: "rnd (v1 * v2) = Fin v3"
      "\<bar>v3 - v1 * v2\<bar> \<le> 1 / 1000000000000000"
    using rnd_near by blast
  have e3: "\<bar>v3 - H3\<bar> \<le> 8 / 1000000000000000"
    using v3(2) x3 by linarith
  \<comment> \<open>\<open>h4 = h3 / TfTs\<close>\<close>
  have "v3 / T - H4 = (v3 - H3) * (1 / T)"
    by (simp add: H4_def algebra_simps diff_divide_distrib)
  moreover have "\<bar>(v3 - H3) * (1 / T)\<bar> \<le> 8 / 1000000000000000 * 1"
    by (rule abs_mult_le) (use e3 T T0 in \<open>simp_all add: divide_le_eq\<close>)
  ultimately have x4: "\<bar>v3 / T - H4\<bar> \<le> 8 / 1000000000000000"
    by simp
  have "\<bar>v3 / T\<bar> \<le> 3" using x4 H4 by linarith
  then obtain v4 where v4: "rnd (v3 / T) = Fin v4"
      "\<bar>v4 - v3 / T\<bar> \<le> 1 / 1000000000000000"
    using rnd_near by blast
  \<comment> \<open>the coefficients\<close>
  have "\<bar>v2 + v3\<bar> \<le> 3" using e2 e3 H2 H3 by linarith
  then obtain A11 where A11: "rnd (v2 + v3) = Fin A11"
      "\<bar>A11 - (v2 + v3)\<bar> \<le> 1 / 1000000000000000"
    using rnd_near by blast
  have "\<bar>v2 - v3\<bar> \<le> 3" using e2 e3 H2 H3 by linarith
  then obtain A22 where A22: "rnd (v2 - v3) = Fin A22"
      "\<bar>A22 - (v2 - v3)\<bar> \<le> 1 / 1000000000000000"
    using rnd_near by blast
  have "\<bar>1 - v2\<bar> \<le> 3" using e2 H2 by linarith
  then obtain w where w: "rnd (1 - v2) = Fin w"
      "\<bar>w - (1 - v2)\<bar> \<le> 1 / 1000000000000000"
    using rnd_near by blast
  have "\<bar>w - v3\<bar> \<le> 3" using w(2) e2 e3 H2 H3 by linarith
  then obtain B1 where B1: "rnd (w - v3) = Fin B1"
      "\<bar>B1 - (w - v3)\<bar> \<le> 1 / 1000000000000000"
    using rnd_near by blast
  have z: "zoh_Fy (Fin T) (Fin X) =
        \<lparr>a11 = Fin A11, a12 = Fin v2, a21 = Fin (- v4),
         a22 = Fin A22, b1 = Fin B1, b2 = Fin v4\<rparr>"
    using T0 by (simp add: zoh_Fy_def Let_def H1_def [symmetric] v1 v2 v3 v4 A11 A22 w B1)
  have "\<bar>A11 - (H2 + H3)\<bar> \<le> 2 / 100000000000000"
    using A11(2) e2 e3 by linarith
  moreover have "\<bar>v2 - H2\<bar> \<le> 2 / 100000000000000"
    using e2 by linarith
  moreover have "\<bar>- v4 - (- H4)\<bar> \<le> 2 / 100000000000000"
    using v4(2) x4 by linarith
  moreover have "\<bar>A22 - (H2 - H3)\<bar> \<le> 2 / 100000000000000"
    using A22(2) e2 e3 by linarith
  moreover have "\<bar>B1 - (1 - H2 - H3)\<bar> \<le> 2 / 100000000000000"
    using B1(2) w(2) e2 e3 by linarith
  moreover have "\<bar>v4 - H4\<bar> \<le> 2 / 100000000000000"
    using v4(2) x4 by linarith
  ultimately show ?thesis
    unfolding z by blast
qed


text \<open>
  Where \<open>Tx / TfTs\<close> overflows, \<open>h1\<close> is infinite, \<open>h2 = exp (- h1)\<close> is zero and
  \<open>h3 = h1 * h2\<close> is NaN, although the real formulas give coefficients near \<open>0\<close> and \<open>1\<close>.
\<close>

lemma zoh_Fy_overflow:
  assumes "T \<noteq> 0" "overflow_threshold \<le> X / T"
  shows "zoh_Fy (Fin T) (Fin X) =
     \<lparr>a11 = NaN, a12 = Fin 0, a21 = NaN, a22 = NaN, b1 = NaN, b2 = NaN\<rparr>"
  using assms
  by (simp add: zoh_Fy_def Let_def rnd_overflow uminus_double_def times_double_def
        plus_double_def minus_double_def divide_double_def)

text \<open>The coefficients for \<open>Tx = 0\<close>.\<close>

lemma zoh_Fy_zero_period:
  "zoh_Fy (Fin 10) (Fin 0) =
     \<lparr>a11 = Fin 1, a12 = Fin 1, a21 = Fin 0, a22 = Fin 1, b1 = Fin 0, b2 = Fin 0\<rparr>"
  by (simp add: zoh_Fy_def Let_def)


section \<open>Facts about the measurement filter\<close>

lemma MeasurementFilter_init_fields [simp]:
  "TfTs_m (MeasurementFilter_init T) = T"
  "yf_m (MeasurementFilter_init T) = Fin 0"
  "dyf_m (MeasurementFilter_init T) = Fin 0"
  "Tx_old_m (MeasurementFilter_init T) = NaN"
  "initialized_m (MeasurementFilter_init T) = False"
  by (simp_all add: MeasurementFilter_init_def)

lemma rediscretize_fields [simp]:
  "TfTs_m (fst (rediscretize f Tx)) = TfTs_m f"
  "yf_m (fst (rediscretize f Tx)) = yf_m f"
  "dyf_m (fst (rediscretize f Tx)) = dyf_m f"
  "Tx_old_m (fst (rediscretize f Tx)) = Tx_old_m f"
  "initialized_m (fst (rediscretize f Tx)) = True"
  by (simp_all add: rediscretize_def Let_def)

lemma rediscretize_calls:
  "snd (rediscretize f Tx) =
     (if \<not> initialized_m f \<or> \<not> deq Tx (Tx_old_m f) then [(TfTs_m f, Tx)] else [])"
  by (simp add: rediscretize_def Let_def)

lemma rediscretize_params:
  "cached_params (fst (rediscretize f Tx)) =
     (if \<not> initialized_m f \<or> \<not> deq Tx (Tx_old_m f) then zoh_Fy (TfTs_m f) Tx
      else cached_params f)"
  by (simp add: rediscretize_def Let_def cached_params_def)

lemma MeasurementFilter_call_unfold:
  "MeasurementFilter_call f y Tx =
     (let g = fst (rediscretize f Tx);
          yf' = a11_m g * yf_m f + a12_m g * dyf_m f + b1_m g * y;
          dyf' = a21_m g * yf_m f + a22_m g * dyf_m f + b2_m g * y
      in (\<lparr>yf = yf', dyf = dyf'\<rparr>,
          g\<lparr>Tx_old_m := Tx, yf_m := yf', dyf_m := dyf'\<rparr>,
          snd (rediscretize f Tx)))"
  by (simp add: MeasurementFilter_call_def Let_def case_prod_beta)

lemma call_filter_fields [simp]:
  "TfTs_m (fst (snd (MeasurementFilter_call f y Tx))) = TfTs_m f"
  "Tx_old_m (fst (snd (MeasurementFilter_call f y Tx))) = Tx"
  "initialized_m (fst (snd (MeasurementFilter_call f y Tx))) = True"
  "yf_m (fst (snd (MeasurementFilter_call f y Tx))) = yf (fst (MeasurementFilter_call f y Tx))"
  "dyf_m (fst (snd (MeasurementFilter_call f y Tx))) = dyf (fst (MeasurementFilter_call f y Tx))"
  by (simp_all add: MeasurementFilter_call_unfold Let_def)

lemma call_filter_params:
  "cached_params (fst (snd (MeasurementFilter_call f y Tx))) =
     cached_params (fst (rediscretize f Tx))"
  by (simp add: MeasurementFilter_call_unfold Let_def cached_params_def)

lemma call_filter_calls:
  "snd (snd (MeasurementFilter_call f y Tx)) = snd (rediscretize f Tx)"
  by (simp add: MeasurementFilter_call_unfold Let_def)

text \<open>What holds of every reachable filter: an initialized filter caches the coefficients of its \<open>Tx_old\<close>.\<close>

lemma filter_reachable_inv:
  "filter_reachable TfTs f \<Longrightarrow>
     TfTs_m f = TfTs \<and> (initialized_m f \<longrightarrow> cached_params f = zoh_Fy TfTs (Tx_old_m f))"
proof (induction rule: filter_reachable.induct)
  case (fr_init TfTs)
  show ?case by (simp add: MeasurementFilter_init_def)
next
  case (fr_call TfTs f y Tx)
  then show ?case
    by (auto simp add: call_filter_params rediscretize_params dest: deq_imp_eq)
next
  case (fr_reset TfTs f)
  then show ?case by (simp add: MeasurementFilter_reset_def)
qed

text \<open>A new filter fed zero returns zero, if the discretizer returns finite coefficients.\<close>

lemma fresh_filter_call_zero:
  assumes "zoh_Fy T Tx =
     \<lparr>a11 = Fin A11, a12 = Fin A12, a21 = Fin A21, a22 = Fin A22, b1 = Fin B1, b2 = Fin B2\<rparr>"
  shows "fst (MeasurementFilter_call (MeasurementFilter_init T) (Fin 0) Tx) =
           \<lparr>yf = Fin 0, dyf = Fin 0\<rparr>"
  by (simp add: MeasurementFilter_call_unfold Let_def rediscretize_def assms)

lemma fresh_filter_zero_10_0:
  "fst (MeasurementFilter_call (MeasurementFilter_init (Fin 10)) (Fin 0) (Fin 0)) =
     \<lparr>yf = Fin 0, dyf = Fin 0\<rparr>"
  by (rule fresh_filter_call_zero [OF zoh_Fy_zero_period])

lemma fresh_filter_zero_10_1:
  "fst (MeasurementFilter_call (MeasurementFilter_init (Fin 10)) (Fin 0) (Fin 1)) =
     \<lparr>yf = Fin 0, dyf = Fin 0\<rparr>"
proof -
  obtain A11 A12 A21 A22 B1 B2 where "zoh_Fy (Fin 10) (Fin 1) =
     \<lparr>a11 = Fin A11, a12 = Fin A12, a21 = Fin A21, a22 = Fin A22, b1 = Fin B1, b2 = Fin B2\<rparr>"
    using zoh_Fy_accuracy [of 10 1] by auto
  then show ?thesis by (rule fresh_filter_call_zero)
qed

text \<open>A call cannot tell two filters in \<^const>\<open>filter_sim\<close> apart, and keeps them in it.\<close>

lemma cached_params_fields:
  "a11_m f = a11 (cached_params f)" "a12_m f = a12 (cached_params f)"
  "a21_m f = a21 (cached_params f)" "a22_m f = a22 (cached_params f)"
  "b1_m f = b1 (cached_params f)" "b2_m f = b2 (cached_params f)"
  by (simp_all add: cached_params_def)

lemma cached_params_reset: "cached_params (MeasurementFilter_reset f) = cached_params f"
  by (simp add: cached_params_def MeasurementFilter_reset_def)

lemma filter_sim_refl [simp]: "filter_sim f f"
  by (simp add: filter_sim_def)

lemma filter_sim_rediscretize:
  assumes "filter_sim f g"
  shows "cached_params (fst (rediscretize f Tx)) = cached_params (fst (rediscretize g Tx))"
  using assms by (auto simp add: filter_sim_def rediscretize_params)

lemma filter_sim_call:
  assumes "filter_sim f g"
  shows "fst (MeasurementFilter_call f y Tx) = fst (MeasurementFilter_call g y Tx) \<and>
         filter_sim (fst (snd (MeasurementFilter_call f y Tx)))
           (fst (snd (MeasurementFilter_call g y Tx)))"
proof -
  have p: "cached_params (fst (rediscretize f Tx)) = cached_params (fst (rediscretize g Tx))"
    using assms by (rule filter_sim_rediscretize)
  have s: "yf_m f = yf_m g" "dyf_m f = dyf_m g"
    using assms by (simp_all add: filter_sim_def)
  have out: "fst (MeasurementFilter_call f y Tx) = fst (MeasurementFilter_call g y Tx)"
    by (simp add: MeasurementFilter_call_unfold Let_def cached_params_fields p s)
  have "filter_sim (fst (snd (MeasurementFilter_call f y Tx)))
           (fst (snd (MeasurementFilter_call g y Tx)))"
    using assms out by (simp add: filter_sim_def call_filter_params p)
  with out show ?thesis by simp
qed


section \<open>Facts about the controller\<close>

lemma PIDController_init_fields [simp]:
  "kp_m (PIDController_init kp ki kd TfTs umin umax u0 b) = kp"
  "ki_m (PIDController_init kp ki kd TfTs umin umax u0 b) = ki"
  "kd_m (PIDController_init kp ki kd TfTs umin umax u0 b) = kd"
  "umin_m (PIDController_init kp ki kd TfTs umin umax u0 b) = umin"
  "umax_m (PIDController_init kp ki kd TfTs umin umax u0 b) = umax"
  "u0_m (PIDController_init kp ki kd TfTs umin umax u0 b) = u0"
  "b_m (PIDController_init kp ki kd TfTs umin umax u0 b) = b"
  "u_old_m (PIDController_init kp ki kd TfTs umin umax u0 b) = Fin 0"
  "up_old_m (PIDController_init kp ki kd TfTs umin umax u0 b) = Fin 0"
  "ud_old_m (PIDController_init kp ki kd TfTs umin umax u0 b) = Fin 0"
  "uff_old_m (PIDController_init kp ki kd TfTs umin umax u0 b) = Fin 0"
  "filter_m (PIDController_init kp ki kd TfTs umin umax u0 b) = MeasurementFilter_init TfTs"
  by (simp_all add: PIDController_init_def)

lemma PIDController_call_unfold:
  "PIDController_call c r y uff uman utrack Tx track auto_mode windup =
     (let res = MeasurementFilter_call (filter_m c) y Tx;
          filtered = fst res;
          ur = unsaturated (c\<lparr>filter_m := fst (snd res)\<rparr>) filtered r uff uman utrack Tx
                 track auto_mode windup;
          u = saturate (fst ur) (umin_m (snd ur)) (umax_m (snd ur))
      in (u, update_old (snd ur) filtered u r uff))"
  by (simp add: PIDController_call_def Let_def case_prod_beta)

lemma reset_P_PD_fields [simp]:
  "kp_m (reset_P_PD c) = kp_m c"
  "ki_m (reset_P_PD c) = ki_m c"
  "kd_m (reset_P_PD c) = kd_m c"
  "umin_m (reset_P_PD c) = umin_m c"
  "umax_m (reset_P_PD c) = umax_m c"
  "u0_m (reset_P_PD c) = u0_m c"
  "filter_m (reset_P_PD c) = filter_m c"
  "b_m (reset_P_PD c) = (if deq (ki_m c) (Fin 0) then Fin 1 else b_m c)"
  "u_old_m (reset_P_PD c) = (if deq (ki_m c) (Fin 0) then u0_m c else u_old_m c)"
  "up_old_m (reset_P_PD c) = (if deq (ki_m c) (Fin 0) then Fin 0 else up_old_m c)"
  "ud_old_m (reset_P_PD c) = (if deq (ki_m c) (Fin 0) then Fin 0 else ud_old_m c)"
  "uff_old_m (reset_P_PD c) = (if deq (ki_m c) (Fin 0) then Fin 0 else uff_old_m c)"
  by (simp_all add: reset_P_PD_def)

lemma tracking_fields [simp]:
  "kp_m (tracking c utrack track) = kp_m c"
  "ki_m (tracking c utrack track) = ki_m c"
  "kd_m (tracking c utrack track) = kd_m c"
  "umin_m (tracking c utrack track) = umin_m c"
  "umax_m (tracking c utrack track) = umax_m c"
  "u0_m (tracking c utrack track) = u0_m c"
  "filter_m (tracking c utrack track) = filter_m c"
  "b_m (tracking c utrack track) = b_m c"
  "u_old_m (tracking c utrack track) = (if track then utrack else u_old_m c)"
  "up_old_m (tracking c utrack track) = (if track then Fin 0 else up_old_m c)"
  "ud_old_m (tracking c utrack track) = (if track then Fin 0 else ud_old_m c)"
  "uff_old_m (tracking c utrack track) = (if track then Fin 0 else uff_old_m c)"
  by (simp_all add: tracking_def)

lemma unsaturated_fields [simp]:
  "kp_m (snd (unsaturated c f r uff uman utrack Tx track auto_mode windup)) = kp_m c"
  "ki_m (snd (unsaturated c f r uff uman utrack Tx track auto_mode windup)) = ki_m c"
  "kd_m (snd (unsaturated c f r uff uman utrack Tx track auto_mode windup)) = kd_m c"
  "umin_m (snd (unsaturated c f r uff uman utrack Tx track auto_mode windup)) = umin_m c"
  "umax_m (snd (unsaturated c f r uff uman utrack Tx track auto_mode windup)) = umax_m c"
  "u0_m (snd (unsaturated c f r uff uman utrack Tx track auto_mode windup)) = u0_m c"
  "filter_m (snd (unsaturated c f r uff uman utrack Tx track auto_mode windup)) = filter_m c"
  "b_m (snd (unsaturated c f r uff uman utrack Tx track auto_mode windup)) =
     (if auto_mode \<and> deq (ki_m c) (Fin 0) then Fin 1 else b_m c)"
  by (simp_all add: unsaturated_def Let_def)

lemma update_old_fields [simp]:
  "kp_m (update_old c f u r uff) = kp_m c"
  "ki_m (update_old c f u r uff) = ki_m c"
  "kd_m (update_old c f u r uff) = kd_m c"
  "umin_m (update_old c f u r uff) = umin_m c"
  "umax_m (update_old c f u r uff) = umax_m c"
  "u0_m (update_old c f u r uff) = u0_m c"
  "filter_m (update_old c f u r uff) = filter_m c"
  "b_m (update_old c f u r uff) = b_m c"
  "u_old_m (update_old c f u r uff) = u"
  "up_old_m (update_old c f u r uff) = kp_m c * (b_m c * r - yf f)"
  "ud_old_m (update_old c f u r uff) = (- kd_m c) * dyf f"
  "uff_old_m (update_old c f u r uff) = uff"
  by (simp_all add: update_old_def)

lemma call_output:
  "fst (PIDController_call c r y uff uman utrack Tx track auto_mode windup) =
     saturate
       (fst (unsaturated (c\<lparr>filter_m := fst (snd (MeasurementFilter_call (filter_m c) y Tx))\<rparr>)
          (fst (MeasurementFilter_call (filter_m c) y Tx)) r uff uman utrack Tx
          track auto_mode windup))
       (umin_m c) (umax_m c)"
  by (simp add: PIDController_call_unfold Let_def)

lemma call_fields [simp]:
  "kp_m (snd (PIDController_call c r y uff uman utrack Tx track auto_mode windup)) = kp_m c"
  "ki_m (snd (PIDController_call c r y uff uman utrack Tx track auto_mode windup)) = ki_m c"
  "kd_m (snd (PIDController_call c r y uff uman utrack Tx track auto_mode windup)) = kd_m c"
  "umin_m (snd (PIDController_call c r y uff uman utrack Tx track auto_mode windup)) = umin_m c"
  "umax_m (snd (PIDController_call c r y uff uman utrack Tx track auto_mode windup)) = umax_m c"
  "u0_m (snd (PIDController_call c r y uff uman utrack Tx track auto_mode windup)) = u0_m c"
  "filter_m (snd (PIDController_call c r y uff uman utrack Tx track auto_mode windup)) =
     fst (snd (MeasurementFilter_call (filter_m c) y Tx))"
  "b_m (snd (PIDController_call c r y uff uman utrack Tx track auto_mode windup)) =
     (if auto_mode \<and> deq (ki_m c) (Fin 0) then Fin 1 else b_m c)"
  "u_old_m (snd (PIDController_call c r y uff uman utrack Tx track auto_mode windup)) =
     fst (PIDController_call c r y uff uman utrack Tx track auto_mode windup)"
  by (simp_all add: PIDController_call_unfold Let_def)

text \<open>
  Finite arguments and a period other than zero can still give NaN: if \<open>Tx / TfTs\<close> overflows,
  the discretizer returns NaN coefficients (\<open>zoh_Fy_overflow\<close>), the filtered value is NaN and
  so are the proportional increment and the returned control signal. \<open>Tx = 2^1023\<close> and
  \<open>TfTs = 1/2\<close> are such arguments.
\<close>

lemma saturation_fails_by_overflow:
  assumes "T \<noteq> 0" "overflow_threshold \<le> X / T"
  shows "fst (PIDController_call
          (PIDController_init (Fin 1) (Fin 0) (Fin 0) (Fin T) (Fin (- 10)) (Fin 10) (Fin 0)
             (Fin 1))
          (Fin 0) (Fin 1) (Fin 0) (Fin 0) (Fin 0) (Fin X) False True NONE) = NaN"
proof -
  have f: "fst (MeasurementFilter_call (MeasurementFilter_init (Fin T)) (Fin 1) (Fin X)) =
      \<lparr>yf = NaN, dyf = NaN\<rparr>"
    by (simp add: MeasurementFilter_call_unfold Let_def rediscretize_def
          zoh_Fy_overflow [OF assms] times_double_def plus_double_def)
  show ?thesis
    by (simp add: call_output f unsaturated_def increment_def Let_def anti_windup_def
          times_double_def minus_double_def plus_double_def)
qed

lemma overflow_arguments:
  "is_double (Fin (overflow_threshold / 2)) \<and> is_double (Fin (1 / 2)) \<and>
   overflow_threshold \<le> overflow_threshold / 2 / (1 / 2)"
proof -
  have h: "overflow_threshold / 2 = of_int 1 * 2 powi 1023"
    unfolding overflow_threshold_powi by (simp add: power_int_diff [of 2 1024 1, simplified])
  have "0 < overflow_threshold"
    using small_less_overflow_threshold [of 0] by simp
  then have b: "\<bar>overflow_threshold / 2\<bar> < overflow_threshold" by linarith
  have "rnd (overflow_threshold / 2) = Fin (overflow_threshold / 2)"
    by (rule rnd_exact [OF h _ _ b]) simp_all
  then show ?thesis by (simp add: is_double_def)
qed

text \<open>
  A call cannot tell two controllers in \<^const>\<open>controller_sim\<close> apart, and keeps them in
  it; so no sequence of calls can.
\<close>

lemma controller_sim_call:
  assumes "controller_sim c d"
  shows "fst (PIDController_call c r y uff uman utrack Tx track auto_mode windup) =
         fst (PIDController_call d r y uff uman utrack Tx track auto_mode windup) \<and>
         controller_sim (snd (PIDController_call c r y uff uman utrack Tx track auto_mode windup))
           (snd (PIDController_call d r y uff uman utrack Tx track auto_mode windup))"
proof -
  have fs: "filter_sim (filter_m c) (filter_m d)"
    using assms by (simp add: controller_sim_def)
  note fc = filter_sim_call [OF fs, of y Tx]
  define fo where "fo = fst (MeasurementFilter_call (filter_m d) y Tx)"
  define fc' where "fc' = fst (snd (MeasurementFilter_call (filter_m c) y Tx))"
  define fd' where "fd' = fst (snd (MeasurementFilter_call (filter_m d) y Tx))"
  have fo: "fst (MeasurementFilter_call (filter_m c) y Tx) = fo"
    using fc by (simp add: fo_def)
  have eqs: "kp_m c = kp_m d" "ki_m c = ki_m d" "kd_m c = kd_m d"
     "umin_m c = umin_m d" "umax_m c = umax_m d" "u0_m c = u0_m d"
     "u_old_m c = u_old_m d" "ud_old_m c = ud_old_m d" "uff_old_m c = uff_old_m d"
    using assms by (simp_all add: controller_sim_def)
  have b: "deq (ki_m d) (Fin 0) \<or> b_m c = b_m d \<and> up_old_m c = up_old_m d"
    using assms by (auto simp add: controller_sim_def)
  have un: "fst (unsaturated (c\<lparr>filter_m := fc'\<rparr>) fo r uff uman utrack Tx track auto_mode windup) =
            fst (unsaturated (d\<lparr>filter_m := fd'\<rparr>) fo r uff uman utrack Tx track auto_mode windup)"
    using b by (auto simp add: unsaturated_def increment_def Let_def eqs)
  have out: "fst (PIDController_call c r y uff uman utrack Tx track auto_mode windup) =
         fst (PIDController_call d r y uff uman utrack Tx track auto_mode windup)"
    using un by (simp add: call_output fo fo_def [symmetric] fc'_def fd'_def eqs)
  have up: "\<not> deq (ki_m d) (Fin 0) \<Longrightarrow>
      up_old_m (snd (PIDController_call c r y uff uman utrack Tx track auto_mode windup)) =
      up_old_m (snd (PIDController_call d r y uff uman utrack Tx track auto_mode windup))"
    using b by (simp add: PIDController_call_unfold Let_def fo fo_def [symmetric] eqs)
  have rest: "ud_old_m (snd (PIDController_call c r y uff uman utrack Tx track auto_mode windup)) =
      ud_old_m (snd (PIDController_call d r y uff uman utrack Tx track auto_mode windup))"
    "uff_old_m (snd (PIDController_call c r y uff uman utrack Tx track auto_mode windup)) =
      uff_old_m (snd (PIDController_call d r y uff uman utrack Tx track auto_mode windup))"
    by (simp_all add: PIDController_call_unfold Let_def fo fo_def [symmetric] eqs)
  have "controller_sim (snd (PIDController_call c r y uff uman utrack Tx track auto_mode windup))
           (snd (PIDController_call d r y uff uman utrack Tx track auto_mode windup))"
    unfolding controller_sim_def
    using out rest up b fc by (auto simp add: eqs)
  with out show ?thesis by simp
qed

lemma controller_sim_run:
  "controller_sim c d \<Longrightarrow> fst (run c rows) = fst (run d rows)"
proof (induction rows arbitrary: c d)
  case Nil
  show ?case by simp
next
  case (Cons a rows)
  have step: "fst (call_with c a) = fst (call_with d a)"
    "controller_sim (snd (call_with c a)) (snd (call_with d a))"
    using controller_sim_call [OF Cons.prems] by (simp_all add: call_with_def)
  have "fst (run (snd (call_with c a)) rows) = fst (run (snd (call_with d a)) rows)"
    using step(2) by (rule Cons.IH)
  with step(1) show ?case
    by (simp add: case_prod_beta)
qed

text \<open>Calls keep the configuration, up to the setpoint weight if \<open>ki == 0\<close>.\<close>

lemma same_config_refl [simp]: "same_config c c"
  by (simp add: same_config_def)

lemma same_config_call:
  "same_config c0 c \<Longrightarrow> same_config c0 (snd (call_with c a))"
  by (auto simp add: same_config_def call_with_def)

lemma same_config_run:
  "same_config c0 c \<Longrightarrow> same_config c0 (snd (run c rows))"
proof (induction rows arbitrary: c)
  case Nil
  then show ?case by simp
next
  case (Cons a rows)
  have "same_config c0 (snd (run (snd (call_with c a)) rows))"
    using Cons.prems by (intro Cons.IH same_config_call)
  then show ?case by (simp add: case_prod_beta)
qed


section \<open>The claims\<close>

subsection \<open>C1: saturation\<close>

text \<open>
  C1, as stated, fails. A new P-only controller (\<open>kp = 1\<close>, \<open>ki = kd = 0\<close>, \<open>TfTs = 10\<close>,
  limits \<open>-10\<close> and \<open>10\<close>) called in automatic mode with \<open>r = y = 0\<close> and \<open>Tx = 0\<close> computes
  \<open>Dud = (-kd * dyf - ud_old) / Tx = 0 / 0 = NaN\<close>; the saturation passes NaN through
  (both comparisons with NaN are false), and NaN is returned, which is not between the
  limits.
\<close>

theorem saturation_fails_at_zero_period:
  "Fin (- 10) \<le> Fin 10 \<and>
   fst (PIDController_call
          (PIDController_init (Fin 1) (Fin 0) (Fin 0) (Fin 10) (Fin (- 10)) (Fin 10) (Fin 0)
             (Fin 1))
          (Fin 0) (Fin 0) (Fin 0) (Fin 0) (Fin 0) (Fin 0) False True NONE) = NaN \<and>
   \<not> (Fin (- 10) \<le> NaN \<and> NaN \<le> Fin 10)"
  by (simp add: call_output fresh_filter_zero_10_0 unsaturated_def increment_def Let_def
        anti_windup_def divide_double_def plus_double_def less_eq_double_def)

text \<open>
  C1, amended. For every call of a controller with \<open>umin <= umax\<close>, in every state and for
  all inputs, the returned control signal is the control signal before saturation (the sum
  \<open>u_old + Du\<close> in automatic mode, \<open>uman\<close> in manual mode) clamped to the limits. It is
  between \<open>umin\<close> and \<open>umax\<close> unless it is NaN, and it is NaN exactly if the control signal
  before saturation is NaN. In manual mode it is between the limits for every \<open>uman\<close> other
  than NaN. Finite arguments do not exclude NaN in automatic mode: besides \<open>Tx = 0\<close> above,
  an overflow in the discretizer or in the increments produces it
  (\<open>saturation_fails_by_overflow\<close> above).
\<close>

theorem saturation_invariant:
  assumes "umin_m c \<le> umax_m c"
  shows "(let res = MeasurementFilter_call (filter_m c) y Tx;
              v = fst (unsaturated (c\<lparr>filter_m := fst (snd res)\<rparr>) (fst res) r uff uman utrack
                         Tx track auto_mode windup);
              u = fst (PIDController_call c r y uff uman utrack Tx track auto_mode windup)
          in u = clamp v (umin_m c) (umax_m c) \<and>
             (umin_m c \<le> u \<and> u \<le> umax_m c \<or> u = NaN) \<and>
             (u = NaN \<longleftrightarrow> v = NaN) \<and>
             (\<not> auto_mode \<and> uman \<noteq> NaN \<longrightarrow> umin_m c \<le> u \<and> u \<le> umax_m c))"
proof -
  define v where "v = fst (unsaturated
      (c\<lparr>filter_m := fst (snd (MeasurementFilter_call (filter_m c) y Tx))\<rparr>)
      (fst (MeasurementFilter_call (filter_m c) y Tx)) r uff uman utrack Tx
      track auto_mode windup)"
  define u where "u = saturate v (umin_m c) (umax_m c)"
  have u: "fst (PIDController_call c r y uff uman utrack Tx track auto_mode windup) = u"
    by (simp add: call_output v_def u_def)
  have 1: "u = clamp v (umin_m c) (umax_m c)"
    unfolding u_def using assms by (rule saturate_clamp)
  have 2: "umin_m c \<le> u \<and> u \<le> umax_m c" if "v \<noteq> NaN"
    unfolding u_def using assms that by (rule saturate_in_range)
  have 3: "u = NaN \<longleftrightarrow> v = NaN"
  proof
    assume "u = NaN"
    then show "v = NaN" using 2 le_not_NaN by blast
  next
    assume "v = NaN"
    then show "u = NaN" by (simp add: u_def)
  qed
  have 4: "v = uman" if "\<not> auto_mode"
    using that by (simp add: v_def unsaturated_def)
  show ?thesis
    unfolding Let_def u v_def [symmetric] using 1 2 3 4 by blast
qed

theorem saturation_invariant_witness:
  "Fin (- 10) \<le> Fin 10 \<and>
   fst (PIDController_call
          (PIDController_init (Fin (1 / 2)) (Fin (1 / 2)) (Fin 0) (Fin 10) (Fin (- 10)) (Fin 10)
             (Fin 0) (Fin 1))
          (Fin 1) (Fin 0) (Fin (1 / 2)) (Fin 0) (Fin 0) (Fin 1) False True NONE) = Fin (3 / 2) \<and>
   Fin (- 10) \<le> Fin (3 / 2) \<and> Fin (3 / 2) \<le> Fin 10 \<and>
   fst (PIDController_call
          (PIDController_init (Fin (1 / 2)) (Fin (1 / 2)) (Fin 0) (Fin 10) (Fin (- 10)) (Fin 10)
             (Fin 0) (Fin 1))
          (Fin 1) (Fin 0) (Fin (1 / 2)) (Fin 15) (Fin 0) (Fin 1) False False NONE) = Fin 10"
  using saturation_invariant [where
      c = "PIDController_init (Fin (1 / 2)) (Fin (1 / 2)) (Fin 0) (Fin 10) (Fin (- 10)) (Fin 10)
             (Fin 0) (Fin 1)"
      and r = "Fin 1" and y = "Fin 0" and uff = "Fin (1 / 2)" and uman = "Fin 0"
      and utrack = "Fin 0" and Tx = "Fin 1" and track = False and auto_mode = True
      and windup = NONE]
    saturation_invariant [where
      c = "PIDController_init (Fin (1 / 2)) (Fin (1 / 2)) (Fin 0) (Fin 10) (Fin (- 10)) (Fin 10)
             (Fin 0) (Fin 1)"
      and r = "Fin 1" and y = "Fin 0" and uff = "Fin (1 / 2)" and uman = "Fin 15"
      and utrack = "Fin 0" and Tx = "Fin 1" and track = False and auto_mode = False
      and windup = NONE]
  by (simp add: Let_def fresh_filter_zero_10_1 unsaturated_def increment_def anti_windup_def
        clamp_def)


subsection \<open>C2: arguments outside the domain\<close>

text \<open>
  C2, as stated, fails. With \<open>TfTs = 10\<close> and \<open>Tx = -1\<close> the call on a new filter returns
  and changes the filter: it is initialized afterwards and \<open>Tx_old = -1\<close>. With \<open>TfTs = 0\<close> and
  \<open>Tx = 1\<close> the discretizer returns NaN coefficients (\<open>1/0 = inf\<close>, \<open>exp(-inf) = 0\<close>,
  \<open>inf * 0 = NaN\<close>) and the call with \<open>y = 1\<close> stores NaN as the filtered value.
\<close>

theorem domain_error_not_rejected:
  "Fin (- 1) \<le> Fin 0 \<and>
   \<not> initialized_m (MeasurementFilter_init (Fin 10)) \<and>
   initialized_m (fst (snd (MeasurementFilter_call (MeasurementFilter_init (Fin 10))
       (Fin 0) (Fin (- 1))))) \<and>
   Tx_old_m (fst (snd (MeasurementFilter_call (MeasurementFilter_init (Fin 10))
       (Fin 0) (Fin (- 1))))) = Fin (- 1) \<and>
   fst (snd (MeasurementFilter_call (MeasurementFilter_init (Fin 10)) (Fin 0) (Fin (- 1))))
     \<noteq> MeasurementFilter_init (Fin 10) \<and>
   Fin 0 \<le> Fin 0 \<and>
   b1 (zoh_Fy (Fin 0) (Fin 1)) = NaN \<and>
   yf_m (fst (snd (MeasurementFilter_call (MeasurementFilter_init (Fin 0)) (Fin 1) (Fin 1))))
     = NaN"
proof -
  have neq: "fst (snd (MeasurementFilter_call (MeasurementFilter_init (Fin 10)) (Fin 0) (Fin (- 1))))
     \<noteq> MeasurementFilter_init (Fin 10)"
  proof
    assume "fst (snd (MeasurementFilter_call (MeasurementFilter_init (Fin 10)) (Fin 0) (Fin (- 1))))
      = MeasurementFilter_init (Fin 10)"
    then have "initialized_m (fst (snd (MeasurementFilter_call (MeasurementFilter_init (Fin 10))
       (Fin 0) (Fin (- 1))))) = initialized_m (MeasurementFilter_init (Fin 10))"
      by simp
    then show False by simp
  qed
  have z: "zoh_Fy (Fin 0) (Fin 1) =
     \<lparr>a11 = NaN, a12 = Fin 0, a21 = NaN, a22 = NaN, b1 = NaN, b2 = NaN\<rparr>"
    by (simp add: zoh_Fy_def Let_def divide_double_def uminus_double_def times_double_def
          plus_double_def minus_double_def)
  have nan: "yf_m (fst (snd (MeasurementFilter_call (MeasurementFilter_init (Fin 0))
       (Fin 1) (Fin 1)))) = NaN"
    by (simp add: MeasurementFilter_call_unfold Let_def rediscretize_def z
          MeasurementFilter_init_def times_double_def plus_double_def)
  show ?thesis using neq nan by (simp add: z)
qed

text \<open>
  C2, amended. Neither the discretizer nor the filter checks its arguments, and neither has
  an error result. For every filter state and every \<open>y\<close> and \<open>Tx\<close>, whatever the signs of \<open>Tx\<close>
  and \<open>TfTs\<close>, the call returns and changes the state in the same way: afterwards the filter is
  initialized, \<open>Tx_old = Tx\<close>, the coefficients are those of \<open>zoh_Fy(TfTs, Tx)\<close> if the filter
  was not initialized or \<open>Tx != Tx_old\<close> and the old ones otherwise, and \<open>yf\<close>, \<open>dyf\<close> hold the
  returned values, computed from the old \<open>yf\<close>, \<open>dyf\<close> by the two update equations.
\<close>

theorem filter_accepts_every_argument:
  "(let res = MeasurementFilter_call f y Tx;
        out = fst res;
        f' = fst (snd res)
    in initialized_m f' \<and>
       Tx_old_m f' = Tx \<and>
       TfTs_m f' = TfTs_m f \<and>
       cached_params f' =
         (if \<not> initialized_m f \<or> \<not> deq Tx (Tx_old_m f) then zoh_Fy (TfTs_m f) Tx
          else cached_params f) \<and>
       yf out = a11_m f' * yf_m f + a12_m f' * dyf_m f + b1_m f' * y \<and>
       dyf out = a21_m f' * yf_m f + a22_m f' * dyf_m f + b2_m f' * y \<and>
       yf_m f' = yf out \<and>
       dyf_m f' = dyf out)"
  by (simp add: Let_def call_filter_params rediscretize_params)
     (simp add: MeasurementFilter_call_unfold Let_def)

theorem filter_accepts_every_argument_witness:
  "initialized_m (fst (snd (MeasurementFilter_call (MeasurementFilter_init (Fin 10))
       (Fin 0) (Fin (- 1))))) \<and>
   Tx_old_m (fst (snd (MeasurementFilter_call (MeasurementFilter_init (Fin 10))
       (Fin 0) (Fin (- 1))))) = Fin (- 1) \<and>
   cached_params (fst (snd (MeasurementFilter_call (MeasurementFilter_init (Fin 10))
       (Fin 0) (Fin (- 1))))) = zoh_Fy (Fin 10) (Fin (- 1))"
  using filter_accepts_every_argument [of "MeasurementFilter_init (Fin 10)" "Fin 0" "Fin (- 1)"]
  by (simp add: Let_def)


subsection \<open>C3: the discretizer\<close>




subsection \<open>C4: the anti-windup rule\<close>

text \<open>
  C4. With no limit active the integral increment passes unchanged (for every double). For
  every real increment \<open>x\<close>: with the lower limit active the result is \<open>max x 0\<close>, with the
  upper limit active it is \<open>min x 0\<close>, with both active it is exactly \<open>0\<close>. The result does
  not depend on the order of the two clauses. The function has no state: it is a function
  of its two arguments.
\<close>

theorem anti_windup_rule:
  "anti_windup d NONE = d \<and>
   anti_windup (Fin x) LOWER = Fin (max x 0) \<and>
   anti_windup (Fin x) UPPER = Fin (min x 0) \<and>
   anti_windup (Fin x) BOTH = Fin 0 \<and>
   anti_windup_upper_first (Fin x) w = anti_windup (Fin x) w"
  by (cases w) (simp_all add: anti_windup_def anti_windup_upper_first_def)


subsection \<open>C5: manual mode\<close>

text \<open>
  C5. For every controller state and all inputs with \<open>auto = false\<close> the call returns
  \<open>uman\<close> saturated: \<open>umax\<close> if \<open>uman > umax\<close>, \<open>umin\<close> if \<open>uman < umin\<close>, and \<open>uman\<close> itself
  otherwise, that is \<open>clamp(uman, umin, umax)\<close> for \<open>umin <= umax\<close>. (The first conjunct
  gives the result for every pair of limits and every \<open>uman\<close>, NaN included.) The result is
  the same for any other controller with the same limits and any other \<open>r\<close>, \<open>y\<close>, \<open>uff\<close>,
  \<open>utrack\<close>, \<open>Tx\<close>, \<open>track\<close> and \<open>windup\<close>: the increments play no part in it.
\<close>

theorem manual_passthrough:
  "(let u = fst (PIDController_call c r y uff uman utrack Tx track False windup)
    in u = (if umax_m c < uman then (if umax_m c < umin_m c then umin_m c else umax_m c)
            else if uman < umin_m c then umin_m c
            else uman) \<and>
       (umin_m c \<le> umax_m c \<longrightarrow> u = clamp uman (umin_m c) (umax_m c)) \<and>
       (umin_m c \<le> umax_m c \<and> umax_m c < uman \<longrightarrow> u = umax_m c) \<and>
       (umin_m c \<le> umax_m c \<and> uman < umin_m c \<longrightarrow> u = umin_m c) \<and>
       (umin_m c \<le> uman \<and> uman \<le> umax_m c \<longrightarrow> u = uman) \<and>
       (umin_m c' = umin_m c \<and> umax_m c' = umax_m c \<longrightarrow>
          fst (PIDController_call c' r' y' uff' uman utrack' Tx' track' False windup') = u))"
proof -
  have 1: "\<And>c r y uff utrack Tx track windup.
     fst (PIDController_call c r y uff uman utrack Tx track False windup) =
     saturate uman (umin_m c) (umax_m c)"
    by (simp add: call_output unsaturated_def)
  have 2: "saturate uman (umin_m c) (umax_m c) =
     (if umax_m c < uman then (if umax_m c < umin_m c then umin_m c else umax_m c)
      else if uman < umin_m c then umin_m c
      else uman)"
    by (simp add: saturate_def std_max_def std_min_def)
  have 3: "umin_m c \<le> umax_m c \<longrightarrow>
     saturate uman (umin_m c) (umax_m c) = clamp uman (umin_m c) (umax_m c)"
    by (simp add: saturate_clamp)
  have 4: "umin_m c \<le> umax_m c \<and> umax_m c < uman \<longrightarrow>
     saturate uman (umin_m c) (umax_m c) = umax_m c"
    by (cases uman; cases "umin_m c"; cases "umax_m c")
       (auto simp add: saturate_def std_max_def std_min_def less_double_def less_eq_double_def)
  have 5: "umin_m c \<le> umax_m c \<and> uman < umin_m c \<longrightarrow>
     saturate uman (umin_m c) (umax_m c) = umin_m c"
    by (cases uman; cases "umin_m c"; cases "umax_m c")
       (auto simp add: saturate_def std_max_def std_min_def less_double_def less_eq_double_def)
  have 6: "umin_m c \<le> uman \<and> uman \<le> umax_m c \<longrightarrow> saturate uman (umin_m c) (umax_m c) = uman"
    by (cases uman; cases "umin_m c"; cases "umax_m c")
       (auto simp add: saturate_def std_max_def std_min_def less_double_def less_eq_double_def)
  show ?thesis
    unfolding Let_def 1 using 2 3 4 5 6 by simp
qed

theorem manual_passthrough_witness:
  "Fin (- 10) \<le> Fin 10 \<and> Fin 10 < Fin 15 \<and>
   fst (PIDController_call
          (PIDController_init (Fin 1) (Fin (1 / 2)) (Fin 0) (Fin 10) (Fin (- 10)) (Fin 10) (Fin 0)
             (Fin 1))
          (Fin 1) (Fin 0) (Fin 0) (Fin 15) (Fin 0) (Fin 1) False False NONE) = Fin 10 \<and>
   Fin (- 15) < Fin (- 10) \<and>
   fst (PIDController_call
          (PIDController_init (Fin 1) (Fin (1 / 2)) (Fin 0) (Fin 10) (Fin (- 10)) (Fin 10) (Fin 0)
             (Fin 1))
          (Fin 1) (Fin 0) (Fin 0) (Fin (- 15)) (Fin 0) (Fin 1) False False NONE) = Fin (- 10) \<and>
   Fin (- 10) \<le> Fin 3 \<and> Fin 3 \<le> Fin 10 \<and>
   fst (PIDController_call
          (PIDController_init (Fin 1) (Fin (1 / 2)) (Fin 0) (Fin 10) (Fin (- 10)) (Fin 10) (Fin 0)
             (Fin 1))
          (Fin 1) (Fin 0) (Fin 0) (Fin 3) (Fin 0) (Fin 1) False False NONE) = Fin 3 \<and>
   fst (PIDController_call
          (PIDController_init (Fin 2) (Fin 0) (Fin 1) (Fin 5) (Fin (- 10)) (Fin 10) (Fin 1)
             (Fin (1 / 2)))
          (Fin 7) (Fin 4) (Fin 1) (Fin 15) (Fin 2) (Fin 3) True False BOTH) = Fin 10"
  using manual_passthrough [where
      c = "PIDController_init (Fin 1) (Fin (1 / 2)) (Fin 0) (Fin 10) (Fin (- 10)) (Fin 10)
             (Fin 0) (Fin 1)"
      and r = "Fin 1" and y = "Fin 0" and uff = "Fin 0" and uman = "Fin 15" and utrack = "Fin 0"
      and Tx = "Fin 1" and track = False and windup = NONE
      and c' = "PIDController_init (Fin 2) (Fin 0) (Fin 1) (Fin 5) (Fin (- 10)) (Fin 10)
             (Fin 1) (Fin (1 / 2))"
      and r' = "Fin 7" and y' = "Fin 4" and uff' = "Fin 1" and utrack' = "Fin 2"
      and Tx' = "Fin 3" and track' = True and windup' = BOTH]
    manual_passthrough [where
      c = "PIDController_init (Fin 1) (Fin (1 / 2)) (Fin 0) (Fin 10) (Fin (- 10)) (Fin 10)
             (Fin 0) (Fin 1)"
      and r = "Fin 1" and y = "Fin 0" and uff = "Fin 0" and uman = "Fin (- 15)"
      and utrack = "Fin 0"
      and Tx = "Fin 1" and track = False and windup = NONE
      and c' = "PIDController_init (Fin 1) (Fin (1 / 2)) (Fin 0) (Fin 10) (Fin (- 10)) (Fin 10)
             (Fin 0) (Fin 1)"
      and r' = "Fin 1" and y' = "Fin 0" and uff' = "Fin 0" and utrack' = "Fin 0"
      and Tx' = "Fin 1" and track' = False and windup' = NONE]
    manual_passthrough [where
      c = "PIDController_init (Fin 1) (Fin (1 / 2)) (Fin 0) (Fin 10) (Fin (- 10)) (Fin 10)
             (Fin 0) (Fin 1)"
      and r = "Fin 1" and y = "Fin 0" and uff = "Fin 0" and uman = "Fin 3" and utrack = "Fin 0"
      and Tx = "Fin 1" and track = False and windup = NONE
      and c' = "PIDController_init (Fin 1) (Fin (1 / 2)) (Fin 0) (Fin 10) (Fin (- 10)) (Fin 10)
             (Fin 0) (Fin 1)"
      and r' = "Fin 1" and y' = "Fin 0" and uff' = "Fin 0" and utrack' = "Fin 0"
      and Tx' = "Fin 1" and track' = False and windup' = NONE]
  by (simp add: Let_def clamp_def)


subsection \<open>C6: tracking\<close>

text \<open>
  C6, as stated, fails: the control signal before saturation is not the sum
  \<open>utrack + Dup + Dui + Dud + Duff\<close>. The source adds the four increments first and then adds
  their sum to \<open>utrack\<close>, and addition of doubles is not associative. A new controller with
  \<open>kp = ki = 1/2\<close>, \<open>kd = 0\<close>, \<open>b = 1\<close>, \<open>TfTs = 10\<close> and no limits, called with \<open>r = 1\<close>, \<open>y = 0\<close>,
  \<open>uff = 1/2\<close>, \<open>Tx = 1\<close>, \<open>track = auto = true\<close> and \<open>utrack = 2^53\<close>, has \<open>yf = dyf = 0\<close>,
  \<open>Dup = Dui = Duff = 1/2\<close> and \<open>Dud = 0\<close>. It returns \<open>2^53 + 2\<close> (the increments sum to \<open>3/2\<close>,
  and \<open>2^53 + 3/2\<close> rounds to \<open>2^53 + 2\<close>), while the sum of the claim, taken from left to
  right, is \<open>2^53\<close> (each \<open>2^53 + 1/2\<close> rounds back to \<open>2^53\<close>).
\<close>

theorem tracking_sum_not_left_to_right:
  "\<not> deq (Fin (1 / 2)) (Fin 0) \<and>
   fst (MeasurementFilter_call (MeasurementFilter_init (Fin 10)) (Fin 0) (Fin 1)) =
     \<lparr>yf = Fin 0, dyf = Fin 0\<rparr> \<and>
   fst (PIDController_call
          (PIDController_init (Fin (1 / 2)) (Fin (1 / 2)) (Fin 0) (Fin 10) MInf PInf (Fin 0)
             (Fin 1))
          (Fin 1) (Fin 0) (Fin (1 / 2)) (Fin 0) (Fin (2 ^ 53)) (Fin 1) True True NONE) =
     Fin (2 ^ 53 + 2) \<and>
   saturate
     (Fin (2 ^ 53)
        + Fin (1 / 2) * (Fin 1 * Fin 1 - Fin 0)
        + anti_windup (Fin (1 / 2) * (Fin 1 - Fin 0) * Fin 1) NONE
        + (- Fin 0) * Fin 0 / Fin 1
        + Fin (1 / 2))
     MInf PInf = Fin (2 ^ 53) \<and>
   Fin (2 ^ 53 + 2) \<noteq> Fin (2 ^ 53)"
proof -
  have u: "fst (PIDController_call
          (PIDController_init (Fin (1 / 2)) (Fin (1 / 2)) (Fin 0) (Fin 10) MInf PInf (Fin 0)
             (Fin 1))
          (Fin 1) (Fin 0) (Fin (1 / 2)) (Fin 0) (Fin (2 ^ 53)) (Fin 1) True True NONE) =
     Fin (2 ^ 53) + Fin (3 / 2)"
    by (simp add: call_output fresh_filter_zero_10_1 unsaturated_def increment_def Let_def
          anti_windup_def)
  have a: "Fin (2 ^ 53) + Fin (3 / 2) = Fin (2 ^ 53 + 2)"
    by (simp only: Fin_arith rnd_two53_three_halves)
  have h: "Fin (2 ^ 53) + Fin (1 / 2) = Fin (2 ^ 53)"
    by (simp only: Fin_arith rnd_two53_half)
  have z: "Fin (2 ^ 53) + Fin 0 = Fin (2 ^ 53)"
    by (simp only: Fin_arith add_0_right rnd_values)
  have s: "Fin (1 / 2) * (Fin 1 * Fin 1 - Fin 0) = Fin (1 / 2)"
    "anti_windup (Fin (1 / 2) * (Fin 1 - Fin 0) * Fin 1) NONE = Fin (1 / 2)"
    "(- Fin 0) * Fin 0 / Fin 1 = Fin 0"
    by (simp_all add: anti_windup_def)
  show ?thesis
    unfolding u a s h z by (simp add: fresh_filter_zero_10_1)
qed

text \<open>
  C6, amended. For every call with \<open>auto = true\<close>, \<open>track = true\<close> and \<open>ki != 0\<close>, with \<open>yf\<close>,
  \<open>dyf\<close> the filter outputs of this call: the overrides set \<open>u_old = utrack\<close> and
  \<open>up_old = ud_old = uff_old = 0\<close>, the control signal before saturation is
  \<open>utrack + (Dup + Dui + Dud + Duff)\<close>, the increments being added to each other from left
  to right and their sum to \<open>utrack\<close>, with \<open>Dup = kp * (b * r - yf)\<close>,
  \<open>Dui = anti_windup(ki * (r - yf) * Tx, windup)\<close>, \<open>Dud = -kd * dyf / Tx\<close> and \<open>Duff = uff\<close>,
  and the returned control signal is this value saturated: \<open>umax\<close> if it is above \<open>umax\<close>,
  \<open>umin\<close> if it is below \<open>umin\<close>, itself otherwise. (\<open>uff\<close> is a double: the premise
  \<open>is_double uff\<close> excludes the terms \<open>Fin x\<close> that no double holds.)
\<close>

theorem bumpless_tracking:
  assumes "\<not> deq (ki_m c) (Fin 0)" and "is_double uff"
  shows "(let res = MeasurementFilter_call (filter_m c) y Tx;
              filtered = fst res;
              Dup = kp_m c * (b_m c * r - yf filtered);
              Dui = anti_windup (ki_m c * (r - yf filtered) * Tx) windup;
              Dud = (- kd_m c) * dyf filtered / Tx;
              Duff = uff;
              v = utrack + (Dup + Dui + Dud + Duff);
              ur = unsaturated (c\<lparr>filter_m := fst (snd res)\<rparr>) filtered r uff uman utrack Tx
                     True True windup;
              u = fst (PIDController_call c r y uff uman utrack Tx True True windup)
          in u_old_m (snd ur) = utrack \<and> up_old_m (snd ur) = Fin 0 \<and>
             ud_old_m (snd ur) = Fin 0 \<and> uff_old_m (snd ur) = Fin 0 \<and>
             fst ur = v \<and>
             u = (if umax_m c < v then (if umax_m c < umin_m c then umin_m c else umax_m c)
                  else if v < umin_m c then umin_m c
                  else v) \<and>
             (umin_m c \<le> umax_m c \<longrightarrow> u = clamp v (umin_m c) (umax_m c)))"
proof -
  define filtered where "filtered = fst (MeasurementFilter_call (filter_m c) y Tx)"
  define c1 where "c1 = c\<lparr>filter_m := fst (snd (MeasurementFilter_call (filter_m c) y Tx))\<rparr>"
  define v where "v = utrack + (kp_m c * (b_m c * r - yf filtered)
      + anti_windup (ki_m c * (r - yf filtered) * Tx) windup
      + (- kd_m c) * dyf filtered / Tx + uff)"
  have k: "\<not> deq (ki_m c1) (Fin 0)" "kp_m c1 = kp_m c" "ki_m c1 = ki_m c" "kd_m c1 = kd_m c"
    "b_m c1 = b_m c"
    using assms(1) by (simp_all add: c1_def)
  have ur: "fst (unsaturated c1 filtered r uff uman utrack Tx True True windup) = v"
    using k assms(2) by (simp add: unsaturated_def increment_def Let_def v_def)
  have st: "u_old_m (snd (unsaturated c1 filtered r uff uman utrack Tx True True windup)) = utrack"
    "up_old_m (snd (unsaturated c1 filtered r uff uman utrack Tx True True windup)) = Fin 0"
    "ud_old_m (snd (unsaturated c1 filtered r uff uman utrack Tx True True windup)) = Fin 0"
    "uff_old_m (snd (unsaturated c1 filtered r uff uman utrack Tx True True windup)) = Fin 0"
    by (simp_all add: unsaturated_def Let_def)
  have u: "fst (PIDController_call c r y uff uman utrack Tx True True windup) =
      saturate v (umin_m c) (umax_m c)"
    using ur by (simp add: call_output c1_def filtered_def)
  have s: "saturate v (umin_m c) (umax_m c) =
     (if umax_m c < v then (if umax_m c < umin_m c then umin_m c else umax_m c)
      else if v < umin_m c then umin_m c
      else v)"
    by (simp add: saturate_def std_max_def std_min_def)
  have cl: "umin_m c \<le> umax_m c \<longrightarrow> saturate v (umin_m c) (umax_m c) = clamp v (umin_m c) (umax_m c)"
    by (simp add: saturate_clamp)
  show ?thesis
    unfolding Let_def filtered_def [symmetric] c1_def [symmetric] v_def [symmetric] u ur
    using st s cl by simp
qed

theorem bumpless_tracking_witness:
  "\<not> deq (Fin (1 / 2)) (Fin 0) \<and> is_double (Fin (1 / 2)) \<and> Fin (- 10) \<le> Fin 10 \<and>
   fst (PIDController_call
          (PIDController_init (Fin (1 / 2)) (Fin (1 / 2)) (Fin 0) (Fin 10) (Fin (- 10)) (Fin 10)
             (Fin 0) (Fin 1))
          (Fin 1) (Fin 0) (Fin (1 / 2)) (Fin 0) (Fin 20) (Fin 1) True True NONE) = Fin 10 \<and>
   fst (unsaturated
          (PIDController_init (Fin (1 / 2)) (Fin (1 / 2)) (Fin 0) (Fin 10) (Fin (- 10)) (Fin 10)
             (Fin 0) (Fin 1)
           \<lparr>filter_m := fst (snd (MeasurementFilter_call (MeasurementFilter_init (Fin 10))
               (Fin 0) (Fin 1)))\<rparr>)
          \<lparr>yf = Fin 0, dyf = Fin 0\<rparr>
          (Fin 1) (Fin (1 / 2)) (Fin 0) (Fin 20) (Fin 1) True True NONE) = Fin (43 / 2)"
proof -
  have d: "is_double (Fin (1 / 2))" by (simp add: is_double_def)
  show ?thesis
    using d bumpless_tracking [where
      c = "PIDController_init (Fin (1 / 2)) (Fin (1 / 2)) (Fin 0) (Fin 10) (Fin (- 10)) (Fin 10)
             (Fin 0) (Fin 1)"
      and r = "Fin 1" and y = "Fin 0" and uff = "Fin (1 / 2)" and uman = "Fin 0"
      and utrack = "Fin 20" and Tx = "Fin 1" and windup = NONE]
    by (simp add: Let_def fresh_filter_zero_10_1 anti_windup_def clamp_def)
qed


subsection \<open>C7: the re-discretization cache\<close>

text \<open>
  C7. Let \<open>f\<close> be a filter constructed with \<open>TfTs\<close> and then driven by any sequence of calls
  and resets. A call \<open>apply(y, Tx)\<close> on \<open>f\<close> invokes the discretizer, once and with the
  arguments \<open>(TfTs, Tx)\<close>, if \<open>f\<close> is not initialized or \<open>Tx != Tx_old\<close>, and does not invoke
  it otherwise. After the call the cached coefficients are \<open>zoh_Fy(TfTs, Tx)\<close>, the filter is
  initialized and \<open>Tx_old = Tx\<close>. \<open>reset()\<close> sets \<open>yf\<close> and \<open>dyf\<close> to zero, clears the
  initialized flag and sets \<open>Tx_old\<close> to NaN, and the call that follows a reset invokes the
  discretizer whatever \<open>Tx\<close> is.
\<close>

theorem rediscretization_cache:
  assumes "filter_reachable TfTs f"
  shows "(let res = MeasurementFilter_call f y Tx;
              f' = fst (snd res);
              calls = snd (snd res)
          in calls = (if \<not> initialized_m f \<or> \<not> deq Tx (Tx_old_m f) then [(TfTs, Tx)] else []) \<and>
             cached_params f' = zoh_Fy TfTs Tx \<and>
             initialized_m f' \<and>
             Tx_old_m f' = Tx) \<and>
         (let g = MeasurementFilter_reset f
          in yf_m g = Fin 0 \<and> dyf_m g = Fin 0 \<and> \<not> initialized_m g \<and> Tx_old_m g = NaN \<and>
             snd (snd (MeasurementFilter_call g y Tx)) = [(TfTs, Tx)])"
proof -
  from assms have T: "TfTs_m f = TfTs"
    and I: "initialized_m f \<longrightarrow> cached_params f = zoh_Fy TfTs (Tx_old_m f)"
    using filter_reachable_inv by blast+
  have 1: "snd (snd (MeasurementFilter_call f y Tx)) =
             (if \<not> initialized_m f \<or> \<not> deq Tx (Tx_old_m f) then [(TfTs, Tx)] else [])"
    by (simp add: call_filter_calls rediscretize_calls T)
  have 3: "cached_params (fst (snd (MeasurementFilter_call f y Tx))) = zoh_Fy TfTs Tx"
    using I T by (auto simp add: call_filter_params rediscretize_params dest: deq_imp_eq)
  have 4: "snd (snd (MeasurementFilter_call (MeasurementFilter_reset f) y Tx)) = [(TfTs, Tx)]"
    by (simp add: call_filter_calls rediscretize_calls MeasurementFilter_reset_def T)
  show ?thesis
    using 1 3 4 by (simp add: Let_def MeasurementFilter_reset_def)
qed

text \<open>
  An instance at a filter that has been used: after one call with \<open>Tx = 1\<close>, a second call
  with \<open>Tx = 1\<close> does not invoke the discretizer and keeps the coefficients of
  \<open>zoh_Fy(10, 1)\<close>; a second call with \<open>Tx = 2\<close> invokes it with \<open>(10, 2)\<close> and caches
  \<open>zoh_Fy(10, 2)\<close>; and after a reset the call with the same \<open>Tx = 1\<close> invokes it again.
\<close>

theorem rediscretization_cache_witness:
  "filter_reachable (Fin 10)
     (fst (snd (MeasurementFilter_call (MeasurementFilter_init (Fin 10)) (Fin 1) (Fin 1)))) \<and>
   initialized_m
     (fst (snd (MeasurementFilter_call (MeasurementFilter_init (Fin 10)) (Fin 1) (Fin 1)))) \<and>
   snd (snd (MeasurementFilter_call
       (fst (snd (MeasurementFilter_call (MeasurementFilter_init (Fin 10)) (Fin 1) (Fin 1))))
       (Fin 1) (Fin 1))) = [] \<and>
   cached_params (fst (snd (MeasurementFilter_call
       (fst (snd (MeasurementFilter_call (MeasurementFilter_init (Fin 10)) (Fin 1) (Fin 1))))
       (Fin 1) (Fin 1)))) = zoh_Fy (Fin 10) (Fin 1) \<and>
   snd (snd (MeasurementFilter_call
       (fst (snd (MeasurementFilter_call (MeasurementFilter_init (Fin 10)) (Fin 1) (Fin 1))))
       (Fin 1) (Fin 2))) = [(Fin 10, Fin 2)] \<and>
   cached_params (fst (snd (MeasurementFilter_call
       (fst (snd (MeasurementFilter_call (MeasurementFilter_init (Fin 10)) (Fin 1) (Fin 1))))
       (Fin 1) (Fin 2)))) = zoh_Fy (Fin 10) (Fin 2) \<and>
   \<not> initialized_m (MeasurementFilter_reset
       (fst (snd (MeasurementFilter_call (MeasurementFilter_init (Fin 10)) (Fin 1) (Fin 1))))) \<and>
   snd (snd (MeasurementFilter_call
       (MeasurementFilter_reset
          (fst (snd (MeasurementFilter_call (MeasurementFilter_init (Fin 10)) (Fin 1) (Fin 1)))))
       (Fin 1) (Fin 1))) = [(Fin 10, Fin 1)]"
proof -
  have r: "filter_reachable (Fin 10)
     (fst (snd (MeasurementFilter_call (MeasurementFilter_init (Fin 10)) (Fin 1) (Fin 1))))"
    by (rule fr_call [OF fr_init])
  show ?thesis
    using r rediscretization_cache [OF r, of "Fin 1" "Fin 1"]
      rediscretization_cache [OF r, of "Fin 1" "Fin 2"]
    by (simp add: Let_def)
qed


subsection \<open>C8: the setpoint weight under \<open>ki = 0\<close>\<close>

text \<open>
  C8. Two controllers constructed with the same \<open>kp\<close>, \<open>kd\<close>, \<open>TfTs\<close>, \<open>umin\<close>, \<open>umax\<close>, \<open>u0\<close>,
  with \<open>ki = 0\<close> and with setpoint weights \<open>b\<close> and \<open>b'\<close>, fed the same sequence of calls (any
  mix of automatic, manual and tracking calls), return the same sequence of control signals.
\<close>

theorem setpoint_weight_noninterference:
  "fst (run (PIDController_init kp (Fin 0) kd TfTs umin umax u0 b) rows) =
   fst (run (PIDController_init kp (Fin 0) kd TfTs umin umax u0 b') rows)"
  by (rule controller_sim_run) (simp add: controller_sim_def)

theorem setpoint_weight_noninterference_witness:
  "fst (run (PIDController_init (Fin 2) (Fin 0) (Fin 1) (Fin 10) (Fin (- 10)) (Fin 10) (Fin 0)
              (Fin (1 / 2)))
         [\<lparr>arg_r = Fin 1, arg_y = Fin 0, arg_uff = Fin 0, arg_uman = Fin 3, arg_utrack = Fin 0,
           arg_Tx = Fin 1, arg_track = False, arg_auto_mode = False, arg_windup = NONE\<rparr>,
          \<lparr>arg_r = Fin 1, arg_y = Fin 1, arg_uff = Fin 0, arg_uman = Fin 0, arg_utrack = Fin 0,
           arg_Tx = Fin 1, arg_track = False, arg_auto_mode = True, arg_windup = NONE\<rparr>]) =
   fst (run (PIDController_init (Fin 2) (Fin 0) (Fin 1) (Fin 10) (Fin (- 10)) (Fin 10) (Fin 0)
              (Fin 1))
         [\<lparr>arg_r = Fin 1, arg_y = Fin 0, arg_uff = Fin 0, arg_uman = Fin 3, arg_utrack = Fin 0,
           arg_Tx = Fin 1, arg_track = False, arg_auto_mode = False, arg_windup = NONE\<rparr>,
          \<lparr>arg_r = Fin 1, arg_y = Fin 1, arg_uff = Fin 0, arg_uman = Fin 0, arg_utrack = Fin 0,
           arg_Tx = Fin 1, arg_track = False, arg_auto_mode = True, arg_windup = NONE\<rparr>])"
  by (rule setpoint_weight_noninterference)


subsection \<open>C9: the configuration\<close>

text \<open>
  C9, as stated, fails for the setpoint weight. A controller constructed with \<open>ki = 0\<close> and
  \<open>b = 1/2\<close> has \<open>b = 1\<close> after one call in automatic mode.
\<close>

theorem setpoint_weight_overridden:
  "b_m (PIDController_init (Fin 1) (Fin 0) (Fin 0) (Fin 10) (Fin (- 10)) (Fin 10) (Fin 0)
          (Fin (1 / 2))) = Fin (1 / 2) \<and>
   b_m (snd (PIDController_call
          (PIDController_init (Fin 1) (Fin 0) (Fin 0) (Fin 10) (Fin (- 10)) (Fin 10) (Fin 0)
             (Fin (1 / 2)))
          (Fin 1) (Fin 0) (Fin 0) (Fin 0) (Fin 0) (Fin 1) False True NONE)) = Fin 1"
  by simp

text \<open>
  C9, amended. For every call, every state and all inputs, \<open>kp\<close>, \<open>ki\<close>, \<open>kd\<close>, \<open>TfTs\<close>,
  \<open>umin\<close>, \<open>umax\<close> and \<open>u0\<close> have the same value after the call as before it. The setpoint
  weight \<open>b\<close> is \<open>1\<close> after a call in automatic mode with \<open>ki == 0\<close>, and has the same value
  as before after every other call.
\<close>

theorem configuration_frame:
  "(let c' = snd (PIDController_call c r y uff uman utrack Tx track auto_mode windup)
    in kp_m c' = kp_m c \<and> ki_m c' = ki_m c \<and> kd_m c' = kd_m c \<and>
       TfTs_m (filter_m c') = TfTs_m (filter_m c) \<and>
       umin_m c' = umin_m c \<and> umax_m c' = umax_m c \<and> u0_m c' = u0_m c \<and>
       b_m c' = (if auto_mode \<and> deq (ki_m c) (Fin 0) then Fin 1 else b_m c))"
  by (simp add: Let_def)

theorem configuration_frame_witness:
  "b_m (snd (PIDController_call
          (PIDController_init (Fin 1) (Fin (1 / 2)) (Fin 0) (Fin 10) (Fin (- 10)) (Fin 10) (Fin 0)
             (Fin (1 / 2)))
          (Fin 1) (Fin 0) (Fin 0) (Fin 0) (Fin 0) (Fin 1) False True NONE)) = Fin (1 / 2) \<and>
   kp_m (snd (PIDController_call
          (PIDController_init (Fin 1) (Fin (1 / 2)) (Fin 0) (Fin 10) (Fin (- 10)) (Fin 10) (Fin 0)
             (Fin (1 / 2)))
          (Fin 1) (Fin 0) (Fin 0) (Fin 0) (Fin 0) (Fin 1) False True NONE)) = Fin 1"
  using configuration_frame [of
      "PIDController_init (Fin 1) (Fin (1 / 2)) (Fin 0) (Fin 10) (Fin (- 10)) (Fin 10) (Fin 0)
         (Fin (1 / 2))"
      "Fin 1" "Fin 0" "Fin 0" "Fin 0" "Fin 0" "Fin 1" False True NONE]
  by (simp add: Let_def)


subsection \<open>C10: reset\<close>

text \<open>
  C10. For every configuration and any two sequences of calls \<open>rows\<close> and \<open>rows'\<close>, a
  controller that processes \<open>rows\<close>, is reset and then processes \<open>rows'\<close> returns on \<open>rows'\<close>
  the same control signals as a newly constructed controller with the same configuration.
\<close>

theorem reset_restores_fresh_behaviour:
  "fst (run (PIDController_reset
              (snd (run (PIDController_init kp ki kd TfTs umin umax u0 b) rows))) rows') =
   fst (run (PIDController_init kp ki kd TfTs umin umax u0 b) rows')"
proof (rule controller_sim_run)
  define c0 where "c0 = PIDController_init kp ki kd TfTs umin umax u0 b"
  define c where "c = snd (run c0 rows)"
  have "same_config c0 c"
    unfolding c_def by (rule same_config_run) simp
  then have "controller_sim (PIDController_reset c) c0"
    by (auto simp add: same_config_def controller_sim_def PIDController_reset_def
          filter_sim_def MeasurementFilter_reset_def c0_def)
  then show "controller_sim
     (PIDController_reset (snd (run (PIDController_init kp ki kd TfTs umin umax u0 b) rows)))
     (PIDController_init kp ki kd TfTs umin umax u0 b)"
    by (simp add: c_def c0_def)
qed

text \<open>
  An instance with \<open>ki = 0\<close> and \<open>b = 1/2\<close>: after one automatic call and the reset the
  filter still caches the coefficients of that call and the setpoint weight is still \<open>1\<close>,
  and the outputs on a manual call followed by an automatic call are those of a new
  controller.
\<close>

theorem reset_restores_fresh_behaviour_witness:
  "cached_params (filter_m (PIDController_reset (snd (run
          (PIDController_init (Fin 2) (Fin 0) (Fin 1) (Fin 10) (Fin (- 10)) (Fin 10) (Fin 0)
             (Fin (1 / 2)))
          [\<lparr>arg_r = Fin 1, arg_y = Fin 1, arg_uff = Fin 0, arg_uman = Fin 0, arg_utrack = Fin 0,
            arg_Tx = Fin 1, arg_track = False, arg_auto_mode = True, arg_windup = NONE\<rparr>]))))
     = zoh_Fy (Fin 10) (Fin 1) \<and>
   b_m (PIDController_reset (snd (run
          (PIDController_init (Fin 2) (Fin 0) (Fin 1) (Fin 10) (Fin (- 10)) (Fin 10) (Fin 0)
             (Fin (1 / 2)))
          [\<lparr>arg_r = Fin 1, arg_y = Fin 1, arg_uff = Fin 0, arg_uman = Fin 0, arg_utrack = Fin 0,
            arg_Tx = Fin 1, arg_track = False, arg_auto_mode = True, arg_windup = NONE\<rparr>])))
     = Fin 1 \<and>
   fst (run (PIDController_reset (snd (run
          (PIDController_init (Fin 2) (Fin 0) (Fin 1) (Fin 10) (Fin (- 10)) (Fin 10) (Fin 0)
             (Fin (1 / 2)))
          [\<lparr>arg_r = Fin 1, arg_y = Fin 1, arg_uff = Fin 0, arg_uman = Fin 0, arg_utrack = Fin 0,
            arg_Tx = Fin 1, arg_track = False, arg_auto_mode = True, arg_windup = NONE\<rparr>])))
         [\<lparr>arg_r = Fin 1, arg_y = Fin 0, arg_uff = Fin 0, arg_uman = Fin 3, arg_utrack = Fin 0,
           arg_Tx = Fin 1, arg_track = False, arg_auto_mode = False, arg_windup = NONE\<rparr>,
          \<lparr>arg_r = Fin 1, arg_y = Fin 1, arg_uff = Fin 0, arg_uman = Fin 0, arg_utrack = Fin 0,
           arg_Tx = Fin 1, arg_track = False, arg_auto_mode = True, arg_windup = NONE\<rparr>]) =
   fst (run (PIDController_init (Fin 2) (Fin 0) (Fin 1) (Fin 10) (Fin (- 10)) (Fin 10) (Fin 0)
              (Fin (1 / 2)))
         [\<lparr>arg_r = Fin 1, arg_y = Fin 0, arg_uff = Fin 0, arg_uman = Fin 3, arg_utrack = Fin 0,
           arg_Tx = Fin 1, arg_track = False, arg_auto_mode = False, arg_windup = NONE\<rparr>,
          \<lparr>arg_r = Fin 1, arg_y = Fin 1, arg_uff = Fin 0, arg_uman = Fin 0, arg_utrack = Fin 0,
           arg_Tx = Fin 1, arg_track = False, arg_auto_mode = True, arg_windup = NONE\<rparr>])"
proof -
  have b: "b_m (PIDController_reset (snd (run
          (PIDController_init (Fin 2) (Fin 0) (Fin 1) (Fin 10) (Fin (- 10)) (Fin 10) (Fin 0)
             (Fin (1 / 2)))
          [\<lparr>arg_r = Fin 1, arg_y = Fin 1, arg_uff = Fin 0, arg_uman = Fin 0, arg_utrack = Fin 0,
            arg_Tx = Fin 1, arg_track = False, arg_auto_mode = True, arg_windup = NONE\<rparr>])))
     = Fin 1"
    by (simp add: case_prod_beta call_with_def PIDController_reset_def)
  have p: "cached_params (filter_m (PIDController_reset (snd (run
          (PIDController_init (Fin 2) (Fin 0) (Fin 1) (Fin 10) (Fin (- 10)) (Fin 10) (Fin 0)
             (Fin (1 / 2)))
          [\<lparr>arg_r = Fin 1, arg_y = Fin 1, arg_uff = Fin 0, arg_uman = Fin 0, arg_utrack = Fin 0,
            arg_Tx = Fin 1, arg_track = False, arg_auto_mode = True, arg_windup = NONE\<rparr>]))))
     = zoh_Fy (Fin 10) (Fin 1)"
    by (simp add: case_prod_beta call_with_def PIDController_reset_def cached_params_reset
          call_filter_params rediscretize_params)
  show ?thesis
    using b p by (simp only: reset_restores_fresh_behaviour simp_thms)
qed

end
